theory Spec2Isabelle
  imports Main "HOL-Library.Sublist" "HOL-Library.Multiset"
begin

section \<open>Go strings\<close>

text \<open>
  A Go string is a sequence of bytes, here a \<^typ>\<open>string\<close> (a list of 8-bit characters).
  The functions of this section are the ones of Go's \<^verbatim>\<open>strings\<close> package that the
  program calls.
\<close>

definition NL :: char where
  "NL = CHR 0x0A"

text \<open>
  \<^verbatim>\<open>unicode.IsSpace\<close>, as the UTF-8 encodings of the runes it accepts: tab, line feed,
  vertical tab, form feed, carriage return, space, U+0085, U+00A0, U+1680, U+2000 to
  U+200A, U+2028, U+2029, U+202F, U+205F and U+3000.
\<close>

definition space_runes :: "string list" where
  "space_runes =
     [[CHR 0x09], [CHR 0x0A], [CHR 0x0B], [CHR 0x0C], [CHR 0x0D], [CHR 0x20],
      [CHR 0xC2, CHR 0x85], [CHR 0xC2, CHR 0xA0],
      [CHR 0xE1, CHR 0x9A, CHR 0x80],
      [CHR 0xE2, CHR 0x80, CHR 0x80], [CHR 0xE2, CHR 0x80, CHR 0x81],
      [CHR 0xE2, CHR 0x80, CHR 0x82], [CHR 0xE2, CHR 0x80, CHR 0x83],
      [CHR 0xE2, CHR 0x80, CHR 0x84], [CHR 0xE2, CHR 0x80, CHR 0x85],
      [CHR 0xE2, CHR 0x80, CHR 0x86], [CHR 0xE2, CHR 0x80, CHR 0x87],
      [CHR 0xE2, CHR 0x80, CHR 0x88], [CHR 0xE2, CHR 0x80, CHR 0x89],
      [CHR 0xE2, CHR 0x80, CHR 0x8A],
      [CHR 0xE2, CHR 0x80, CHR 0xA8], [CHR 0xE2, CHR 0x80, CHR 0xA9],
      [CHR 0xE2, CHR 0x80, CHR 0xAF],
      [CHR 0xE2, CHR 0x81, CHR 0x9F],
      [CHR 0xE3, CHR 0x80, CHR 0x80]]"

text \<open>
  \<^verbatim>\<open>strings.TrimLeftFunc(s, unicode.IsSpace)\<close>: drop encoded space runes from the front
  for as long as there is one. The list \<open>ws\<close> holds the encodings.
\<close>

function strip_prefixes :: "string list \<Rightarrow> string \<Rightarrow> string" where
  "strip_prefixes ws s =
     (case List.find (\<lambda>w. w \<noteq> [] \<and> prefix w s) ws of
        None \<Rightarrow> s
      | Some w \<Rightarrow> strip_prefixes ws (drop (length w) s))"
  by pat_completeness auto
termination
proof (relation "measure (\<lambda>(ws, s). length s)")
  show "wf (measure (\<lambda>(ws, s). length s))" by simp
next
  fix ws :: "string list" and s w :: string
  assume "List.find (\<lambda>w. w \<noteq> [] \<and> prefix w s) ws = Some w"
  then have "w \<noteq> []" and "prefix w s"
    by (auto simp: find_Some_iff)
  then have "length s > 0"
    by (cases s) auto
  with \<open>w \<noteq> []\<close> show "((ws, drop (length w) s), (ws, s)) \<in> measure (\<lambda>(ws, s). length s)"
    by simp
qed

text \<open>
  \<^verbatim>\<open>strings.TrimSpace\<close>: leading space runes go, then trailing ones. A trailing rune is
  recognised by its encoding read backwards.
\<close>

definition TrimSpace :: "string \<Rightarrow> string" where
  "TrimSpace s =
     rev (strip_prefixes (map rev space_runes) (rev (strip_prefixes space_runes s)))"

text \<open>\<^verbatim>\<open>strings.Split(s, "\n")\<close>: one more piece than there are line feeds.\<close>

fun Split :: "string \<Rightarrow> string list" where
  "Split [] = [[]]"
| "Split (c # cs) =
     (if c = NL then [] # Split cs
      else (case Split cs of l # ls \<Rightarrow> (c # l) # ls | [] \<Rightarrow> [[c]]))"

text \<open>\<^verbatim>\<open>strings.Join(lines, "\n")\<close>.\<close>

fun Join :: "string list \<Rightarrow> string" where
  "Join [] = []"
| "Join [l] = l"
| "Join (l # ls) = l @ NL # Join ls"

text \<open>\<^verbatim>\<open>strings.Contains(s, c)\<close> for a one-byte string \<open>c\<close>.\<close>

definition Contains :: "string \<Rightarrow> char \<Rightarrow> bool" where
  "Contains s c \<longleftrightarrow> c \<in> set s"

text \<open>
  The two ASCII cases of a byte; a byte that is no ASCII letter is left as it is.
\<close>

definition lower_byte :: "char \<Rightarrow> char" where
  "lower_byte c =
     (if 65 \<le> (of_char c :: nat) \<and> (of_char c :: nat) \<le> 90
      then char_of ((of_char c :: nat) + 32) else c)"

definition upper_byte :: "char \<Rightarrow> char" where
  "upper_byte c =
     (if 97 \<le> (of_char c :: nat) \<and> (of_char c :: nat) \<le> 122
      then char_of ((of_char c :: nat) - 32) else c)"

text \<open>
  \<^verbatim>\<open>strings.ToLower\<close>: a string of ASCII bytes has its letters \<open>A\<close> to \<open>Z\<close> lowered
  byte by byte. A string with a byte of 0x80 or more goes to
  \<^verbatim>\<open>strings.Map(unicode.ToLower, s)\<close>, which lowers every upper-case rune by the Unicode
  tables and writes U+FFFD for a byte that is not valid UTF-8. The tables are outside
  the repository: that mapping is the parameter \<open>lower_runes\<close>.
\<close>

definition ToLower :: "(string \<Rightarrow> string) \<Rightarrow> string \<Rightarrow> string" where
  "ToLower lower_runes s =
     (if list_all (\<lambda>c. (of_char c :: nat) < 128) s then map lower_byte s
      else lower_runes s)"

text \<open>\<^verbatim>\<open>strings.ReplaceAll(s, old, new)\<close> for a non-empty \<open>old\<close>.\<close>

fun ReplaceAll :: "string \<Rightarrow> string \<Rightarrow> string \<Rightarrow> string" where
  "ReplaceAll [] old new = []"
| "ReplaceAll (c # cs) old new =
     (if old \<noteq> [] \<and> prefix old (c # cs)
      then new @ ReplaceAll (drop (length old) (c # cs)) old new
      else c # ReplaceAll cs old new)"

section \<open>Go regular expressions\<close>

text \<open>
  The fragment of \<^verbatim>\<open>regexp\<close> syntax that the program's patterns are written in. Every
  repetition in them is over a single character class, and no pattern matches the empty
  string.
\<close>

datatype cclass =
    AnyNoNL      \<comment> \<open>\<^verbatim>\<open>.\<close> without the \<^verbatim>\<open>s\<close> flag\<close>
  | AnyChar      \<comment> \<open>\<^verbatim>\<open>.\<close> under \<^verbatim>\<open>(?s)\<close>, and \<^verbatim>\<open>[\s\S]\<close>\<close>
  | Space        \<comment> \<open>\<^verbatim>\<open>\s\<close>, which is \<^verbatim>\<open>[\t\n\f\r ]\<close>\<close>
  | OneOf string \<comment> \<open>\<^verbatim>\<open>[abc]\<close>, or a single literal character\<close>
  | NoneOf string \<comment> \<open>\<^verbatim>\<open>[^abc]\<close>\<close>

fun in_class :: "cclass \<Rightarrow> char \<Rightarrow> bool" where
  "in_class AnyNoNL c \<longleftrightarrow> c \<noteq> NL"
| "in_class AnyChar c \<longleftrightarrow> True"
| "in_class Space c \<longleftrightarrow> c \<in> set [CHR 0x09, CHR 0x0A, CHR 0x0C, CHR 0x0D, CHR 0x20]"
| "in_class (OneOf cs) c \<longleftrightarrow> c \<in> set cs"
| "in_class (NoneOf cs) c \<longleftrightarrow> c \<notin> set cs"

datatype regex =
    Lit string            \<comment> \<open>a literal\<close>
  | LitI string           \<comment> \<open>a literal under \<^verbatim>\<open>(?i)\<close>\<close>
  | Rep cclass nat        \<comment> \<open>\<^verbatim>\<open>c{n,}\<close>, greedy: \<^verbatim>\<open>c*\<close> is \<open>Rep c 0\<close>, \<^verbatim>\<open>c+\<close> is \<open>Rep c 1\<close>\<close>
  | RepLazy cclass nat    \<comment> \<open>\<^verbatim>\<open>c{n,}?\<close>, shortest first\<close>
  | One cclass            \<comment> \<open>one character of a class\<close>
  | Seq regex regex
  | Alt regex regex       \<comment> \<open>\<^verbatim>\<open>a|b\<close>, the left branch preferred\<close>
  | Opt regex             \<comment> \<open>\<^verbatim>\<open>a?\<close>, greedy\<close>
  | Bot                   \<comment> \<open>\<^verbatim>\<open>^\<close> without the \<^verbatim>\<open>m\<close> flag: the beginning of the text\<close>
  | Bol                   \<comment> \<open>\<^verbatim>\<open>^\<close> under \<^verbatim>\<open>(?m)\<close>: the beginning of a line\<close>
  | Eol                   \<comment> \<open>\<^verbatim>\<open>$\<close> under \<^verbatim>\<open>(?m)\<close>: the end of a line\<close>

text \<open>
  A position in the text is the byte before it (\<open>None\<close> at the beginning of the text)
  and the text that is left.
\<close>

type_synonym pos = "char option \<times> string"

text \<open>
  The encodings one letter of a \<^verbatim>\<open>(?i)\<close> literal matches: both ASCII cases, and for
  \<open>k\<close> and \<open>s\<close> the two other runes of their case-folding orbits, U+212A and U+017F.
\<close>

definition fold_alts :: "char \<Rightarrow> string list" where
  "fold_alts c =
     (if lower_byte c = upper_byte c then [[c]]
      else [[lower_byte c], [upper_byte c]] @
        (if lower_byte c = CHR ''k'' then [[CHR 0xE2, CHR 0x84, CHR 0xAA]]
         else if lower_byte c = CHR ''s'' then [[CHR 0xC5, CHR 0xBF]]
         else []))"

fun lit_ends :: "bool \<Rightarrow> string \<Rightarrow> pos \<Rightarrow> pos list" where
  "lit_ends ci [] ps = [ps]"
| "lit_ends ci (c # cs) (p, s) =
     (case List.find (\<lambda>w. prefix w s) (if ci then fold_alts c else [[c]]) of
        None \<Rightarrow> []
      | Some w \<Rightarrow> lit_ends ci cs (Some (last w), drop (length w) s))"

text \<open>
  The positions a repetition can end at, in the order a backtracking search tries them:
  the longest run first for a greedy repetition, the shortest first for a lazy one.
\<close>

fun rep_ends :: "cclass \<Rightarrow> nat \<Rightarrow> pos \<Rightarrow> pos list" where
  "rep_ends cl n (p, []) = (if n = 0 then [(p, [])] else [])"
| "rep_ends cl n (p, c # cs) =
     (if in_class cl c then rep_ends cl (n - 1) (Some c, cs) else []) @
     (if n = 0 then [(p, c # cs)] else [])"

fun rep_lazy_ends :: "cclass \<Rightarrow> nat \<Rightarrow> pos \<Rightarrow> pos list" where
  "rep_lazy_ends cl n (p, []) = (if n = 0 then [(p, [])] else [])"
| "rep_lazy_ends cl n (p, c # cs) =
     (if n = 0 then [(p, c # cs)] else []) @
     (if in_class cl c then rep_lazy_ends cl (n - 1) (Some c, cs) else [])"

text \<open>
  All the ways a pattern matches at a position, as the positions after the match, the
  one Go prefers first (leftmost-first: the match a backtracking search finds first).
\<close>

fun rmatch :: "regex \<Rightarrow> pos \<Rightarrow> pos list" where
  "rmatch (Lit l) ps = lit_ends False l ps"
| "rmatch (LitI l) ps = lit_ends True l ps"
| "rmatch (Rep cl n) ps = rep_ends cl n ps"
| "rmatch (RepLazy cl n) ps = rep_lazy_ends cl n ps"
| "rmatch (One cl) (p, s) =
     (case s of [] \<Rightarrow> [] | c # cs \<Rightarrow> if in_class cl c then [(Some c, cs)] else [])"
| "rmatch (Seq a b) ps = concat (map (rmatch b) (rmatch a ps))"
| "rmatch (Alt a b) ps = rmatch a ps @ rmatch b ps"
| "rmatch (Opt a) ps = rmatch a ps @ [ps]"
| "rmatch Bot (p, s) = (if p = None then [(p, s)] else [])"
| "rmatch Bol (p, s) = (if p = None \<or> p = Some NL then [(p, s)] else [])"
| "rmatch Eol (p, s) = (if s = [] \<or> hd s = NL then [(p, s)] else [])"

text \<open>
  \<^verbatim>\<open>FindStringIndex\<close> from a position on: the first position where the pattern matches,
  with the end of the preferred match there. \<open>i\<close> is the index of the position.
\<close>

fun find_from :: "regex \<Rightarrow> nat \<Rightarrow> pos \<Rightarrow> (nat \<times> nat) option" where
  "find_from r i (p, s) =
     (case rmatch r (p, s) of
        (p', s') # _ \<Rightarrow> Some (i, i + (length s - length s'))
      | [] \<Rightarrow> (case s of [] \<Rightarrow> None | c # cs \<Rightarrow> find_from r (Suc i) (Some c, cs)))"

definition FindStringIndex :: "regex \<Rightarrow> string \<Rightarrow> (nat \<times> nat) option" where
  "FindStringIndex r s = find_from r 0 (None, s)"

definition MatchString :: "regex \<Rightarrow> string \<Rightarrow> bool" where
  "MatchString r s \<longleftrightarrow> FindStringIndex r s \<noteq> None"

text \<open>
  \<^verbatim>\<open>ReplaceAllString\<close> with a replacement that has no \<^verbatim>\<open>$\<close> in it: the matches are
  found from left to right, each one starting where the last one ended. A match that
  takes no character is passed over (no pattern of the program has one).
\<close>

function replace_from :: "regex \<Rightarrow> string \<Rightarrow> pos \<Rightarrow> string" where
  "replace_from r repl (p, s) =
     (case rmatch r (p, s) of
        (p', s') # _ \<Rightarrow>
          if length s' < length s then repl @ replace_from r repl (p', s')
          else (case s of [] \<Rightarrow> [] | c # cs \<Rightarrow> c # replace_from r repl (Some c, cs))
      | [] \<Rightarrow> (case s of [] \<Rightarrow> [] | c # cs \<Rightarrow> c # replace_from r repl (Some c, cs)))"
  by pat_completeness auto
termination
  by (relation "measure (\<lambda>(r, repl, p, s). length s)") auto

definition ReplaceAllString :: "regex \<Rightarrow> string \<Rightarrow> string \<Rightarrow> string" where
  "ReplaceAllString r s repl = replace_from r repl (None, s)"

section \<open>export/html.go\<close>

text \<open>
  A node of the tree \<^verbatim>\<open>html.Parse\<close> returns (\<^verbatim>\<open>golang.org/x/net/html\<close>): its type, its
  \<^verbatim>\<open>Data\<close> (the tag name of an element, the text of a text node) and its children from
  \<^verbatim>\<open>FirstChild\<close> along \<^verbatim>\<open>NextSibling\<close>.
\<close>

datatype NodeType =
  ErrorNode | TextNode | DocumentNode | ElementNode | CommentNode | DoctypeNode | RawNode

datatype Node = Node NodeType string "Node list"

text \<open>
  \<^verbatim>\<open>extractText(n, sb)\<close>: the \<^verbatim>\<open>strings.Builder\<close> is passed in and returned.
\<close>

fun extractText :: "Node \<Rightarrow> string \<Rightarrow> string" where
  "extractText (Node ty data kids) sb =
     (let sb = (if ty = TextNode then sb @ data else sb) in
      if ty = ElementNode \<and> data \<in> set [''script'', ''style'', ''head''] then sb
      else
        let sb = (if ty = ElementNode \<and> data = ''br'' then sb @ [NL]
                  else if ty = ElementNode \<and>
                     data \<in> set [''p'', ''div'', ''h1'', ''h2'', ''h3'', ''h4'', ''h5'', ''h6'',
                       ''li'', ''tr'']
                  then sb @ [NL]
                  else sb);
            sb = fold (\<lambda>c. extractText c) kids sb
        in if ty = ElementNode \<and>
              data \<in> set [''p'', ''div'', ''h1'', ''h2'', ''h3'', ''h4'', ''h5'', ''h6'',
                ''ul'', ''ol'', ''table'']
           then sb @ [NL]
           else sb)"

text \<open>\<^verbatim>\<open>cleanWhitespace\<close>: the patterns are \<^verbatim>\<open>[ \t]+\<close> and \<^verbatim>\<open>\n{3,}\<close>.\<close>

definition cleanWhitespace :: "string \<Rightarrow> string" where
  "cleanWhitespace s =
     (let s = ReplaceAllString (Rep (OneOf [CHR 0x20, CHR 0x09]) 1) s '' '';
          s = ReplaceAllString (Rep (OneOf [NL]) 3) s [NL, NL];
          lines = map TrimSpace (Split s);
          s = Join lines
      in TrimSpace s)"

text \<open>
  The patterns of \<^verbatim>\<open>stripHTMLRegex\<close>:
  \<^verbatim>\<open>(?i)<script[^>]*>[\s\S]*?</script>\<close>, \<^verbatim>\<open>(?i)<style[^>]*>[\s\S]*?</style>\<close>,
  \<^verbatim>\<open>(?i)<br\s*/?>\<close>, \<^verbatim>\<open>(?i)</(p|div|h[1-6]|li|tr)>\<close> and \<^verbatim>\<open><[^>]*>\<close>.
\<close>

definition reScript :: regex where
  "reScript = Seq (LitI ''<script'') (Seq (Rep (NoneOf ''>'') 0) (Seq (Lit ''>'')
     (Seq (RepLazy AnyChar 0) (LitI ''</script>''))))"

definition reStyle :: regex where
  "reStyle = Seq (LitI ''<style'') (Seq (Rep (NoneOf ''>'') 0) (Seq (Lit ''>'')
     (Seq (RepLazy AnyChar 0) (LitI ''</style>''))))"

definition reBr :: regex where
  "reBr = Seq (LitI ''<br'') (Seq (Rep Space 0) (Seq (Opt (Lit ''/'')) (Lit ''>'')))"

definition reBlock :: regex where
  "reBlock = Seq (Lit ''</'')
     (Seq (Alt (LitI ''p'') (Alt (LitI ''div'') (Alt (Seq (LitI ''h'') (One (OneOf ''123456'')))
        (Alt (LitI ''li'') (LitI ''tr'')))))
     (Lit ''>''))"

definition reTags :: regex where
  "reTags = Seq (Lit ''<'') (Seq (Rep (NoneOf ''>'') 0) (Lit ''>''))"

definition stripHTMLRegex :: "string \<Rightarrow> string" where
  "stripHTMLRegex s =
     (let s = ReplaceAllString reScript s [];
          s = ReplaceAllString reStyle s [];
          s = ReplaceAllString reBr s [NL];
          s = ReplaceAllString reBlock s [NL];
          s = ReplaceAllString reTags s [];
          s = ReplaceAll s ''&nbsp;'' '' '';
          s = ReplaceAll s ''&amp;'' ''&'';
          s = ReplaceAll s ''&lt;'' ''<'';
          s = ReplaceAll s ''&gt;'' ''>'';
          s = ReplaceAll s ''&quot;'' [CHR 0x22];
          s = ReplaceAll s ''&#39;'' [CHR 0x27]
      in cleanWhitespace s)"

section \<open>export/quotes.go\<close>

text \<open>\<^verbatim>\<open>(?im)^On .+wrote:\s*$\<close>\<close>

definition attributionPattern :: regex where
  "attributionPattern = Seq Bol (Seq (LitI ''On '') (Seq (Rep AnyNoNL 1)
     (Seq (LitI ''wrote:'') (Seq (Rep Space 0) Eol))))"

text \<open>\<^verbatim>\<open>(?m)^>+.*$\<close>\<close>

definition quotedLinePattern :: regex where
  "quotedLinePattern = Seq Bol (Seq (Rep (OneOf ''>'') 1) (Seq (Rep AnyNoNL 0) Eol))"

text \<open>\<^verbatim>\<open>(?im)^-{5,}\s*Forwarded message\s*-{5,}\<close>\<close>

definition forwardedPattern :: regex where
  "forwardedPattern = Seq Bol (Seq (Rep (OneOf ''-'') 5) (Seq (Rep Space 0)
     (Seq (LitI ''Forwarded message'') (Seq (Rep Space 0) (Rep (OneOf ''-'') 5)))))"

text \<open>\<^verbatim>\<open>(?im)^-{5,}\s*Original Message\s*-{5,}\<close>\<close>

definition originalMsgPattern :: regex where
  "originalMsgPattern = Seq Bol (Seq (Rep (OneOf ''-'') 5) (Seq (Rep Space 0)
     (Seq (LitI ''Original Message'') (Seq (Rep Space 0) (Rep (OneOf ''-'') 5)))))"

text \<open>\<^verbatim>\<open>(?im)^From:\s*.+\n(Sent|Date):\s*.+\nTo:\s*.+\n(Cc:\s*.+\n)?Subject:\s*.+$\<close>\<close>

definition outlookHeaderPattern :: regex where
  "outlookHeaderPattern =
     Seq Bol (Seq (LitI ''From:'') (Seq (Rep Space 0) (Seq (Rep AnyNoNL 1) (Seq (Lit [NL])
     (Seq (Alt (LitI ''Sent'') (LitI ''Date'')) (Seq (Lit '':'') (Seq (Rep Space 0)
       (Seq (Rep AnyNoNL 1) (Seq (Lit [NL])
     (Seq (LitI ''To:'') (Seq (Rep Space 0) (Seq (Rep AnyNoNL 1) (Seq (Lit [NL])
     (Seq (Opt (Seq (LitI ''Cc:'') (Seq (Rep Space 0) (Seq (Rep AnyNoNL 1) (Lit [NL])))))
     (Seq (LitI ''Subject:'') (Seq (Rep Space 0) (Seq (Rep AnyNoNL 1) Eol)))))))))))))))))"

text \<open>\<^verbatim>\<open>(?m)^--\s*$\<close>\<close>

definition sigDelimiterPattern :: regex where
  "sigDelimiterPattern = Seq Bol (Seq (Lit ''--'') (Seq (Rep Space 0) Eol))"

text \<open>
  \<^verbatim>\<open>(?im)^sent from my (iphone|ipad|android|mobile|galaxy|pixel).*$\<close>,
  \<^verbatim>\<open>(?im)^get outlook for .*$\<close>, \<^verbatim>\<open>(?im)^sent from mail for windows.*$\<close>,
  \<^verbatim>\<open>(?im)^sent from yahoo mail.*$\<close> and \<^verbatim>\<open>(?im)^sent via .*$\<close>.
\<close>

definition sigPhrasePatterns :: "regex list" where
  "sigPhrasePatterns =
     [Seq Bol (Seq (LitI ''sent from my '')
        (Seq (Alt (LitI ''iphone'') (Alt (LitI ''ipad'') (Alt (LitI ''android'')
           (Alt (LitI ''mobile'') (Alt (LitI ''galaxy'') (LitI ''pixel''))))))
        (Seq (Rep AnyNoNL 0) Eol))),
      Seq Bol (Seq (LitI ''get outlook for '') (Seq (Rep AnyNoNL 0) Eol)),
      Seq Bol (Seq (LitI ''sent from mail for windows'') (Seq (Rep AnyNoNL 0) Eol)),
      Seq Bol (Seq (LitI ''sent from yahoo mail'') (Seq (Rep AnyNoNL 0) Eol)),
      Seq Bol (Seq (LitI ''sent via '') (Seq (Rep AnyNoNL 0) Eol))]"

text \<open>
  \<^verbatim>\<open>StripQuotes\<close>. Each \<^verbatim>\<open>if loc := p.FindStringIndex(body); loc != nil\<close> keeps
  \<^verbatim>\<open>strings.TrimSpace(body[:loc[0]])\<close>; the two markers of step 2 are the loop over a
  slice of patterns.
\<close>

definition StripQuotes :: "string \<Rightarrow> string" where
  "StripQuotes body =
     (let body = (case FindStringIndex attributionPattern body of
                    Some loc \<Rightarrow> TrimSpace (take (fst loc) body)
                  | None \<Rightarrow> body);
          body = fold (\<lambda>pattern body.
                    case FindStringIndex pattern body of
                      Some loc \<Rightarrow> TrimSpace (take (fst loc) body)
                    | None \<Rightarrow> body)
                   [forwardedPattern, originalMsgPattern] body;
          body = (case FindStringIndex outlookHeaderPattern body of
                    Some loc \<Rightarrow> TrimSpace (take (fst loc) body)
                  | None \<Rightarrow> body);
          body = ReplaceAllString quotedLinePattern body [];
          body = ReplaceAllString (Rep (OneOf [NL]) 3) body [NL, NL]
      in TrimSpace body)"

text \<open>
  The loop of \<^verbatim>\<open>StripSignature\<close>:
  \<^verbatim>\<open>for i := len(lines) - 1; i >= 0 && i >= len(lines)-5; i--\<close>, with Go's signed \<open>i\<close>.
\<close>

function sig_loop :: "string list \<Rightarrow> string \<Rightarrow> int \<Rightarrow> string" where
  "sig_loop lines body i =
     (if i \<ge> 0 \<and> i \<ge> int (length lines) - 5 then
        (let line = TrimSpace (lines ! nat i) in
         if line = [] then sig_loop lines body (i - 1)
         else if list_ex (\<lambda>pattern. MatchString pattern line) sigPhrasePatterns
         then TrimSpace (Join (take (nat i) lines))
         else sig_loop lines body (i - 1))
      else body)"
  by pat_completeness auto
termination
  by (relation "measure (\<lambda>(lines, body, i). nat (i + 1))") auto

definition StripSignature :: "string \<Rightarrow> string" where
  "StripSignature body =
     (let body = (case FindStringIndex sigDelimiterPattern body of
                    Some loc \<Rightarrow> TrimSpace (take (fst loc) body)
                  | None \<Rightarrow> body);
          lines = Split body
      in sig_loop lines body (int (length lines) - 1))"

text \<open>
  The patterns of \<^verbatim>\<open>StripQuotesFromHTML\<close>:
  \<^verbatim>\<open>(?is)<blockquote[^>]*>.*?</blockquote>\<close>,
  \<^verbatim>\<open>(?is)<div[^>]*class="[^"]*gmail_quote[^"]*"[^>]*>.*?</div>\<close> and
  \<^verbatim>\<open>(?is)<div[^>]*id="(appendonsend|divRplyFwdMsg)"[^>]*>.*?</div>\<close>.
\<close>

definition blockquotePattern :: regex where
  "blockquotePattern = Seq (LitI ''<blockquote'') (Seq (Rep (NoneOf ''>'') 0) (Seq (Lit ''>'')
     (Seq (RepLazy AnyChar 0) (LitI ''</blockquote>''))))"

definition gmailQuotePattern :: regex where
  "gmailQuotePattern = Seq (LitI ''<div'') (Seq (Rep (NoneOf ''>'') 0)
     (Seq (LitI (''class='' @ [CHR 0x22])) (Seq (Rep (NoneOf [CHR 0x22]) 0)
     (Seq (LitI ''gmail_quote'') (Seq (Rep (NoneOf [CHR 0x22]) 0) (Seq (Lit [CHR 0x22])
     (Seq (Rep (NoneOf ''>'') 0) (Seq (Lit ''>'')
     (Seq (RepLazy AnyChar 0) (LitI ''</div>''))))))))))"

definition outlookQuotePattern :: regex where
  "outlookQuotePattern = Seq (LitI ''<div'') (Seq (Rep (NoneOf ''>'') 0)
     (Seq (LitI (''id='' @ [CHR 0x22]))
     (Seq (Alt (LitI ''appendonsend'') (LitI ''divRplyFwdMsg'')) (Seq (Lit [CHR 0x22])
     (Seq (Rep (NoneOf ''>'') 0) (Seq (Lit ''>'')
     (Seq (RepLazy AnyChar 0) (LitI ''</div>''))))))))"

definition StripQuotesFromHTML :: "string \<Rightarrow> string" where
  "StripQuotesFromHTML html =
     (let html = ReplaceAllString blockquotePattern html [];
          html = ReplaceAllString gmailQuotePattern html [];
          html = ReplaceAllString outlookQuotePattern html []
      in html)"

text \<open>
  \<^verbatim>\<open>htmlToTextWithOptions\<close>. The parser \<^verbatim>\<open>html.Parse\<close> is a library outside the
  repository: it is the parameter \<open>parse\<close>, \<open>None\<close> when it returns an error.
\<close>

definition htmlToTextWithOptions :: "(string \<Rightarrow> Node option) \<Rightarrow> string \<Rightarrow> bool \<Rightarrow> string" where
  "htmlToTextWithOptions parse htmlStr stripQuotes =
     (let htmlStr = (if stripQuotes then StripQuotesFromHTML htmlStr else htmlStr) in
      case parse htmlStr of
        None \<Rightarrow> stripHTMLRegex htmlStr
      | Some doc \<Rightarrow> cleanWhitespace (extractText doc []))"

definition HTMLToText :: "(string \<Rightarrow> Node option) \<Rightarrow> string \<Rightarrow> string" where
  "HTMLToText parse htmlStr = htmlToTextWithOptions parse htmlStr False"

definition HTMLToTextStripQuotes :: "(string \<Rightarrow> Node option) \<Rightarrow> string \<Rightarrow> string" where
  "HTMLToTextStripQuotes parse htmlStr = htmlToTextWithOptions parse htmlStr True"

section \<open>The export options and \<^verbatim>\<open>CleanBody\<close>\<close>

record ExportOptions =
  StripQuotes_opt :: bool
  StripSignatures_opt :: bool

text \<open>\<^verbatim>\<open>DefaultLLMOptions\<close>: both passes on. Every caller passes these options.\<close>

definition DefaultLLMOptions :: ExportOptions where
  "DefaultLLMOptions = \<lparr>StripQuotes_opt = True, StripSignatures_opt = True\<rparr>"

definition CleanBody :: "(string \<Rightarrow> Node option) \<Rightarrow> string \<Rightarrow> ExportOptions \<Rightarrow> string" where
  "CleanBody parse body opts =
     (let body = (if Contains body (CHR ''<'') \<and> Contains body (CHR ''>'')
                  then (if StripQuotes_opt opts then HTMLToTextStripQuotes parse body
                        else HTMLToText parse body)
                  else body);
          body = (if StripQuotes_opt opts then StripQuotes body else body);
          body = (if StripSignatures_opt opts then StripSignature body else body)
      in body)"

section \<open>jmap/types.go and jmap/email.go\<close>

record Attachment =
  BlobID :: string
  Type :: string
  Name :: string
  Size :: nat
  CID :: string
  IsInline :: bool

record EmailAddress =
  Name :: string
  Email :: string

record BodyPart =
  PartID :: string
  Type :: string

record BodyValue =
  Value :: string

record Email =
  ID :: string
  ThreadID :: string
  MailboxIDs :: "string \<rightharpoonup> bool"
  From :: "EmailAddress list"
  To :: "EmailAddress list"
  CC :: "EmailAddress list"
  Subject :: string
  ReceivedAt :: string
  Preview :: string
  TextBody :: "BodyPart list"
  HTMLBody :: "BodyPart list"
  BodyValues :: "string \<rightharpoonup> BodyValue"
  Attachments :: "Attachment list"
  HasAttachment :: bool
  MessageID :: "string list"
  InReplyTo :: "string list"
  References :: "string list"

text \<open>
  One loop of \<^verbatim>\<open>GetBodyText\<close>: the value of the first listed part that has one in
  \<^verbatim>\<open>BodyValues\<close>.
\<close>

fun first_body_value :: "BodyPart list \<Rightarrow> (string \<rightharpoonup> BodyValue) \<Rightarrow> string option" where
  "first_body_value [] vals = None"
| "first_body_value (part # parts) vals =
     (case vals (PartID part) of
        Some val \<Rightarrow> Some (Value val)
      | None \<Rightarrow> first_body_value parts vals)"

definition GetBodyText :: "Email \<Rightarrow> string" where
  "GetBodyText e =
     (case first_body_value (TextBody e) (BodyValues e) of
        Some v \<Rightarrow> v
      | None \<Rightarrow>
          (case first_body_value (HTMLBody e) (BodyValues e) of
             Some v \<Rightarrow> v
           | None \<Rightarrow> Email.Preview e))"

section \<open>tui/threadlist.go\<close>

text \<open>
  A \<^verbatim>\<open>time.Time\<close> is an instant; here it is its distance from the zero \<^verbatim>\<open>Time\<close>
  (0001-01-01T00:00:00Z) in a fixed unit, negative for an earlier instant.
  \<^verbatim>\<open>time.Parse\<close> is outside the repository: it is a parameter of the functions that call
  it, \<open>None\<close> when it returns an error. The program drops the error and goes on with the
  zero \<^verbatim>\<open>Time\<close> that \<^verbatim>\<open>time.Parse\<close> returns beside it.
\<close>

type_synonym Time = int

definition zeroTime :: Time where
  "zeroTime = 0"

definition Before :: "Time \<Rightarrow> Time \<Rightarrow> bool" where
  "Before t u \<longleftrightarrow> t < u"

definition parse_drop_err :: "(string \<Rightarrow> Time option) \<Rightarrow> string \<Rightarrow> Time" where
  "parse_drop_err parse s = (case parse s of None \<Rightarrow> zeroTime | Some t \<Rightarrow> t)"

record ThreadItem =
  NormalizedSubject :: string
  Subject :: string
  From :: string
  Date :: Time
  Preview :: string
  EmailCount :: int
  Emails :: "Email list"

text \<open>\<^verbatim>\<open>(?i)^(re|fwd|fw):\s*\<close>\<close>

definition subjectPrefixPattern :: regex where
  "subjectPrefixPattern =
     Seq Bot (Seq (Alt (LitI ''re'') (Alt (LitI ''fwd'') (LitI ''fw'')))
       (Seq (Lit '':'') (Rep Space 0)))"

text \<open>
  The loop of \<^verbatim>\<open>NormalizeSubject\<close>: replace until nothing changes. Each round that
  changes the text shortens it.
\<close>

function strip_reply_prefixes :: "string \<Rightarrow> string" where
  "strip_reply_prefixes normalized =
     (let stripped = ReplaceAllString subjectPrefixPattern normalized [] in
      if stripped = normalized then normalized else strip_reply_prefixes stripped)"
  by pat_completeness auto
termination
proof (relation "measure length")
  show "wf (measure length)" by simp
next
  fix normalized stripped :: string
  assume st: "stripped = ReplaceAllString subjectPrefixPattern normalized []"
    and ne: "stripped \<noteq> normalized"
  have shrink: "length (replace_from r repl ps) \<le> length (snd ps) \<and>
      (length (replace_from r repl ps) = length (snd ps) \<longrightarrow> replace_from r repl ps = snd ps)"
    if "repl = []" for r repl ps
    using that
  proof (induction r repl ps rule: replace_from.induct)
    case (1 r repl p s)
    show ?case
    proof (cases "rmatch r (p, s)")
      case Nil
      then show ?thesis
        using 1 by (cases s) auto
    next
      case (Cons ps' rest)
      obtain p' s' where ps': "ps' = (p', s')" by (cases ps')
      show ?thesis
      proof (cases "length s' < length s")
        case True
        with Cons ps' 1 have "length (replace_from r repl (p', s')) \<le> length s'"
          by fastforce
        with True Cons ps' 1(4) show ?thesis by simp
      next
        case False
        with Cons ps' 1 show ?thesis
          by (cases s) auto
      qed
    qed
  qed
  from shrink [of "[]" subjectPrefixPattern "(None, normalized)"] st ne
  have "length stripped < length normalized"
    by (auto simp: ReplaceAllString_def le_less)
  then show "(stripped, normalized) \<in> measure length" by simp
qed

definition NormalizeSubject :: "(string \<Rightarrow> string) \<Rightarrow> string \<Rightarrow> string" where
  "NormalizeSubject lower_runes subject =
     (let normalized = strip_reply_prefixes subject;
          normalized = TrimSpace normalized;
          normalized = ReplaceAllString (Rep Space 1) normalized '' ''
      in ToLower lower_runes normalized)"

text \<open>The key of a message: \<^verbatim>\<open>NormalizeSubject(email.Subject)\<close>.\<close>

definition subject_key :: "(string \<Rightarrow> string) \<Rightarrow> Email \<Rightarrow> string" where
  "subject_key lower_runes email = NormalizeSubject lower_runes (Email.Subject email)"

text \<open>
  The first loop of \<^verbatim>\<open>GroupEmailsBySubject\<close>, one message: the state is the map
  \<^verbatim>\<open>groups\<close> and the slice \<^verbatim>\<open>order\<close>. Reading a key that the map does not have gives
  the nil slice.
\<close>

definition group_step ::
  "(string \<Rightarrow> string) \<Rightarrow> Email \<Rightarrow>
   (string \<rightharpoonup> Email list) \<times> string list \<Rightarrow> (string \<rightharpoonup> Email list) \<times> string list"
where
  "group_step lower_runes email st =
     (let groups = fst st; order = snd st;
          key = subject_key lower_runes email;
          order = (if groups key = None then order @ [key] else order);
          groups = groups(key \<mapsto> (case groups key of None \<Rightarrow> [] | Some g \<Rightarrow> g) @ [email])
      in (groups, order))"

text \<open>
  The sender shown for a conversation: the name of the first \<^verbatim>\<open>From\<close> address, or
  the address itself when the name is empty, or nothing when there is no address.
\<close>

definition display_from :: "Email \<Rightarrow> string" where
  "display_from newest =
     (case Email.From newest of
        [] \<Rightarrow> []
      | a # _ \<Rightarrow> if EmailAddress.Name a \<noteq> [] then EmailAddress.Name a
                 else EmailAddress.Email a)"

text \<open>
  The body of the second loop. \<^verbatim>\<open>sort.Slice\<close> is outside the repository and is not
  stable, so the sort is the parameter \<open>srt\<close>, called with the \<^verbatim>\<open>less\<close> function of the
  source. The index \<^verbatim>\<open>len(groupEmails)-1\<close> of an empty slice is out of range, a panic:
  the result \<open>None\<close>.
\<close>

definition build_item ::
  "((Email \<Rightarrow> Email \<Rightarrow> bool) \<Rightarrow> Email list \<Rightarrow> Email list) \<Rightarrow> (string \<Rightarrow> Time option) \<Rightarrow>
   (string \<rightharpoonup> Email list) \<Rightarrow> string \<Rightarrow> ThreadItem option"
where
  "build_item srt parse groups key =
     (let groupEmails = (case groups key of None \<Rightarrow> [] | Some g \<Rightarrow> g);
          groupEmails = srt (\<lambda>a b. Before (parse_drop_err parse (ReceivedAt a))
                                        (parse_drop_err parse (ReceivedAt b))) groupEmails
      in if length groupEmails = 0 then None
         else
           let newest = groupEmails ! (length groupEmails - 1);
               from = display_from newest;
               date = parse_drop_err parse (ReceivedAt newest)
           in Some \<lparr>NormalizedSubject = key,
                    Subject = Email.Subject newest,
                    From = from,
                    Date = date,
                    Preview = Email.Preview newest,
                    EmailCount = int (length groupEmails),
                    Emails = groupEmails\<rparr>)"

fun build_items ::
  "((Email \<Rightarrow> Email \<Rightarrow> bool) \<Rightarrow> Email list \<Rightarrow> Email list) \<Rightarrow> (string \<Rightarrow> Time option) \<Rightarrow>
   (string \<rightharpoonup> Email list) \<Rightarrow> string list \<Rightarrow> ThreadItem list option"
where
  "build_items srt parse groups [] = Some []"
| "build_items srt parse groups (key # order) =
     (case build_item srt parse groups key of
        None \<Rightarrow> None
      | Some item \<Rightarrow>
          (case build_items srt parse groups order of
             None \<Rightarrow> None
           | Some items \<Rightarrow> Some (item # items)))"

definition GroupEmailsBySubject ::
  "((Email \<Rightarrow> Email \<Rightarrow> bool) \<Rightarrow> Email list \<Rightarrow> Email list) \<Rightarrow> (string \<Rightarrow> Time option) \<Rightarrow>
   (string \<Rightarrow> string) \<Rightarrow> Email list \<Rightarrow> ThreadItem list option"
where
  "GroupEmailsBySubject srt parse lower_runes emails =
     (let st = fold (group_step lower_runes) emails (Map.empty, []) in
      build_items srt parse (fst st) (snd st))"

section \<open>What the sort, the parsers and the Unicode tables are taken to do\<close>

text \<open>
  \<^verbatim>\<open>sort.Slice\<close> rearranges the slice, and when \<^verbatim>\<open>less\<close> compares a key the result is
  in the order of the keys. Nothing is said about elements with equal keys.
\<close>

definition sort_contract :: "((Email \<Rightarrow> Email \<Rightarrow> bool) \<Rightarrow> Email list \<Rightarrow> Email list) \<Rightarrow> bool" where
  "sort_contract srt \<longleftrightarrow>
     (\<forall>lt xs. mset (srt lt xs) = mset xs) \<and>
     (\<forall>(key :: Email \<Rightarrow> Time) xs. sorted (map key (srt (\<lambda>a b. Before (key a) (key b)) xs)))"

text \<open>
  The insertion sort that \<^verbatim>\<open>sort.Slice\<close> runs on a short slice: each element moves
  left past the elements it is \<^verbatim>\<open>less\<close> than.
\<close>

fun insert_by :: "('a \<Rightarrow> 'a \<Rightarrow> bool) \<Rightarrow> 'a \<Rightarrow> 'a list \<Rightarrow> 'a list" where
  "insert_by lt x [] = [x]"
| "insert_by lt x (y # ys) =
     (if lt x y then y # insert_by lt x ys else x # y # ys)"

definition insertion_sort :: "('a \<Rightarrow> 'a \<Rightarrow> bool) \<Rightarrow> 'a list \<Rightarrow> 'a list" where
  "insertion_sort lt xs = rev (fold (insert_by lt) xs [])"

text \<open>
  \<^verbatim>\<open>time.Parse(time.RFC3339, s)\<close> on the timestamps of the form
  \<^verbatim>\<open>YYYY-MM-DDThh:mm:ssZ\<close>, in seconds from the zero \<^verbatim>\<open>Time\<close>, with the proleptic
  Gregorian calendar of Go. The year 0000 is accepted, as it is by Go. The other forms
  of RFC 3339 (a numeric offset, a fraction of a second) are not covered: \<open>None\<close>.
\<close>

definition digit_of :: "char \<Rightarrow> int option" where
  "digit_of c =
     (if 48 \<le> (of_char c :: nat) \<and> (of_char c :: nat) \<le> 57
      then Some (int (of_char c) - 48) else None)"

fun parse_uint :: "int \<Rightarrow> string \<Rightarrow> int option" where
  "parse_uint acc [] = Some acc"
| "parse_uint acc (c # cs) =
     (case digit_of c of None \<Rightarrow> None | Some d \<Rightarrow> parse_uint (acc * 10 + d) cs)"

definition is_leap :: "int \<Rightarrow> bool" where
  "is_leap y \<longleftrightarrow> y mod 400 = 0 \<or> (y mod 4 = 0 \<and> 0 < y mod 100)"

definition days_in :: "int \<Rightarrow> int \<Rightarrow> int" where
  "days_in y m =
     (if m = 2 then (if is_leap y then 29 else 28)
      else if m = 4 \<or> m = 6 \<or> m = 9 \<or> m = 11 then 30 else 31)"

definition days_before_year :: "int \<Rightarrow> int" where
  "days_before_year y = 365 * (y - 1) + (y - 1) div 4 - (y - 1) div 100 + (y - 1) div 400"

definition days_before_month :: "int \<Rightarrow> int \<Rightarrow> int" where
  "days_before_month y m = sum_list (map (days_in y) [1 .. m - 1])"

definition parse_utc :: "string \<Rightarrow> Time option" where
  "parse_utc s =
     (if length s = 20 \<and> s ! 4 = CHR ''-'' \<and> s ! 7 = CHR ''-'' \<and> s ! 10 = CHR ''T'' \<and>
         s ! 13 = CHR '':'' \<and> s ! 16 = CHR '':'' \<and> s ! 19 = CHR ''Z''
      then
        (case (parse_uint 0 (take 4 s), parse_uint 0 (take 2 (drop 5 s)),
               parse_uint 0 (take 2 (drop 8 s)), parse_uint 0 (take 2 (drop 11 s)),
               parse_uint 0 (take 2 (drop 14 s)), parse_uint 0 (take 2 (drop 17 s))) of
           (Some year, Some month, Some day, Some hour, Some minute, Some sec) \<Rightarrow>
             if 1 \<le> month \<and> month \<le> 12 \<and> 1 \<le> day \<and> day \<le> days_in year month \<and>
                hour \<le> 23 \<and> minute \<le> 59 \<and> sec \<le> 59
             then Some ((((days_before_year year + days_before_month year month + (day - 1))
                      * 24 + hour) * 60 + minute) * 60 + sec)
             else None
         | _ \<Rightarrow> None)
      else None)"

text \<open>A parser that fails on every input, as \<^verbatim>\<open>html.Parse\<close> does on a reader error.\<close>

definition parse_fails :: "string \<Rightarrow> Node option" where
  "parse_fails s = None"

text \<open>
  A stand-in for the Unicode mapping of \<^verbatim>\<open>strings.ToLower\<close> in the examples: their
  subjects are ASCII, so it is never called.
\<close>

definition lower_ascii :: "string \<Rightarrow> string" where
  "lower_ascii s = map lower_byte s"

text \<open>A message with a subject and a timestamp, everything else empty.\<close>

definition message :: "string \<Rightarrow> string \<Rightarrow> string \<Rightarrow> Email" where
  "message i subj received =
     \<lparr>ID = i, ThreadID = [], MailboxIDs = Map.empty, From = [], To = [], CC = [],
      Subject = subj, ReceivedAt = received, Preview = [], TextBody = [], HTMLBody = [],
      BodyValues = Map.empty, Attachments = [], HasAttachment = False, MessageID = [],
      InReplyTo = [], References = []\<rparr>"

section \<open>The specification's words\<close>

text \<open>
  The keys of a list in the order of their first occurrence.
\<close>

fun first_seen :: "'a list \<Rightarrow> 'a list" where
  "first_seen [] = []"
| "first_seen (x # xs) = x # filter (\<lambda>y. y \<noteq> x) (first_seen xs)"

text \<open>
  Cutting a text before the first match of a pattern and trimming what is kept; the
  text itself when the pattern has no match.
\<close>

definition cut_before :: "regex \<Rightarrow> string \<Rightarrow> string" where
  "cut_before pattern body =
     (case FindStringIndex pattern body of
        Some loc \<Rightarrow> TrimSpace (take (fst loc) body)
      | None \<Rightarrow> body)"

text \<open>
  Quote stripping as the specification words it: the four cuts in their order, then
  every line that starts with \<^verbatim>\<open>>\<close> is removed, then a run of three or more blank lines
  becomes two blank lines. The specification's example needs the text kept by a cut to
  be trimmed, so the cuts trim.
\<close>

definition remove_quoted_lines :: "string \<Rightarrow> string" where
  "remove_quoted_lines body =
     Join (filter (\<lambda>l. case l of [] \<Rightarrow> True | c # _ \<Rightarrow> c \<noteq> CHR ''>'') (Split body))"

fun squeeze_blank :: "nat \<Rightarrow> string list \<Rightarrow> string list" where
  "squeeze_blank n [] = []"
| "squeeze_blank n (l # ls) =
     (if l = [] then (if 2 \<le> n then squeeze_blank n ls else l # squeeze_blank (Suc n) ls)
      else l # squeeze_blank 0 ls)"

definition StripQuotes_described :: "string \<Rightarrow> string" where
  "StripQuotes_described body =
     (let body = cut_before attributionPattern body;
          body = cut_before forwardedPattern body;
          body = cut_before originalMsgPattern body;
          body = cut_before outlookHeaderPattern body;
          body = remove_quoted_lines body
      in Join (squeeze_blank 0 (Split body)))"

text \<open>
  Signature stripping as the specification words it: with a delimiter line, the text
  before the first one; only otherwise the scan, over the last five lines that are not
  empty, from the end.
\<close>

definition is_sig_phrase :: "string \<Rightarrow> bool" where
  "is_sig_phrase line \<longleftrightarrow> list_ex (\<lambda>pattern. MatchString pattern line) sigPhrasePatterns"

definition StripSignature_described :: "string \<Rightarrow> string" where
  "StripSignature_described body =
     (case FindStringIndex sigDelimiterPattern body of
        Some loc \<Rightarrow> TrimSpace (take (fst loc) body)
      | None \<Rightarrow>
          (let lines = Split body;
               filled = filter (\<lambda>i. TrimSpace (lines ! i) \<noteq> []) (rev [0 ..< length lines])
           in case List.find (\<lambda>i. is_sig_phrase (TrimSpace (lines ! i))) (take 5 filled) of
                Some i \<Rightarrow> TrimSpace (Join (take i lines))
              | None \<Rightarrow> body))"

section \<open>Sample inputs\<close>

text \<open>
  The tree of \<^verbatim>\<open>a<br> <br> <br> <br>b\<close>: the parser puts the text and the line breaks
  in the body of a document with an empty head.
\<close>

definition sample_doc :: Node where
  "sample_doc =
     Node DocumentNode [] [Node ElementNode ''html''
       [Node ElementNode ''head'' [],
        Node ElementNode ''body''
          [Node TextNode ''a'' [], Node ElementNode ''br'' [],
           Node TextNode '' '' [], Node ElementNode ''br'' [],
           Node TextNode '' '' [], Node ElementNode ''br'' [],
           Node TextNode '' '' [], Node ElementNode ''br'' [],
           Node TextNode ''b'' []]]]"

definition strip_nothing :: ExportOptions where
  "strip_nothing = \<lparr>StripQuotes_opt = False, StripSignatures_opt = False\<rparr>"

text \<open>
  The equations of the loops are unfolded by hand where a proof needs them.
\<close>

declare sig_loop.simps [simp del] replace_from.simps [simp del]
  strip_prefixes.simps [simp del] strip_reply_prefixes.simps [simp del]

section \<open>Message bodies\<close>

lemma first_body_value_None:
  "first_body_value parts vals = None \<longleftrightarrow> (\<forall>part \<in> set parts. vals (PartID part) = None)"
  by (induction parts) (auto split: option.splits)

text \<open>
  Claim C9, as the code has it: when no listed text part and no listed HTML part has a
  value in \<^verbatim>\<open>BodyValues\<close>, \<^verbatim>\<open>GetBodyText\<close> returns the \<^verbatim>\<open>Preview\<close> of the message. That is
  the empty string only when the preview is empty.
\<close>

theorem GetBodyText_absent_is_preview:
  assumes "\<forall>part \<in> set (TextBody e). BodyValues e (PartID part) = None"
    and "\<forall>part \<in> set (HTMLBody e). BodyValues e (PartID part) = None"
  shows "GetBodyText e = Email.Preview e"
  using assms by (simp add: GetBodyText_def first_body_value_None [symmetric])

theorem GetBodyText_absent_is_preview_witness:
  "list_all (\<lambda>part. BodyValues ((message ''m1'' ''Hello'' ''2024-01-01T00:00:00Z'')
        \<lparr>Email.Preview := ''Hi there'', TextBody := [\<lparr>PartID = ''1'', Type = ''text/plain''\<rparr>]\<rparr>)
        (PartID part) = None)
     (TextBody ((message ''m1'' ''Hello'' ''2024-01-01T00:00:00Z'')
        \<lparr>Email.Preview := ''Hi there'', TextBody := [\<lparr>PartID = ''1'', Type = ''text/plain''\<rparr>]\<rparr>)) \<and>
   HTMLBody ((message ''m1'' ''Hello'' ''2024-01-01T00:00:00Z'')
        \<lparr>Email.Preview := ''Hi there'', TextBody := [\<lparr>PartID = ''1'', Type = ''text/plain''\<rparr>]\<rparr>) = [] \<and>
   GetBodyText ((message ''m1'' ''Hello'' ''2024-01-01T00:00:00Z'')
        \<lparr>Email.Preview := ''Hi there'', TextBody := [\<lparr>PartID = ''1'', Type = ''text/plain''\<rparr>]\<rparr>)
     = ''Hi there''"
  using GetBodyText_absent_is_preview
    [of "(message ''m1'' ''Hello'' ''2024-01-01T00:00:00Z'')
        \<lparr>Email.Preview := ''Hi there'', TextBody := [\<lparr>PartID = ''1'', Type = ''text/plain''\<rparr>]\<rparr>"]
  by (simp add: message_def)

text \<open>
  Claim C9 as stated fails: a message with no body part at all and the preview
  \<open>Hi there\<close> has both variants absent, and \<^verbatim>\<open>GetBodyText\<close> does not return the empty
  string.
\<close>

theorem GetBodyText_absent_counterexample:
  "first_body_value (TextBody ((message ''m1'' ''Hello'' ''2024-01-01T00:00:00Z'')
        \<lparr>Email.Preview := ''Hi there''\<rparr>))
      (BodyValues ((message ''m1'' ''Hello'' ''2024-01-01T00:00:00Z'')
        \<lparr>Email.Preview := ''Hi there''\<rparr>)) = None \<and>
   first_body_value (HTMLBody ((message ''m1'' ''Hello'' ''2024-01-01T00:00:00Z'')
        \<lparr>Email.Preview := ''Hi there''\<rparr>))
      (BodyValues ((message ''m1'' ''Hello'' ''2024-01-01T00:00:00Z'')
        \<lparr>Email.Preview := ''Hi there''\<rparr>)) = None \<and>
   GetBodyText ((message ''m1'' ''Hello'' ''2024-01-01T00:00:00Z'')
        \<lparr>Email.Preview := ''Hi there''\<rparr>) \<noteq> []"
  by (simp add: message_def GetBodyText_def)

section \<open>The tree walk\<close>

text \<open>
  Claim C7, as the code has it: an element \<^verbatim>\<open>p\<close>, \<^verbatim>\<open>div\<close> or \<^verbatim>\<open>h1\<close> to \<^verbatim>\<open>h6\<close> appends a
  line feed before its children and one after them; \<^verbatim>\<open>li\<close>, \<^verbatim>\<open>tr\<close> and \<^verbatim>\<open>br\<close> append one
  before their children and none after; \<^verbatim>\<open>ul\<close>, \<^verbatim>\<open>ol\<close> and \<^verbatim>\<open>table\<close> append none before
  and one after.
\<close>

theorem extractText_newlines:
  "(tag \<in> set [''p'', ''div'', ''h1'', ''h2'', ''h3'', ''h4'', ''h5'', ''h6''] \<longrightarrow>
      extractText (Node ElementNode tag kids) sb
        = fold extractText kids (sb @ [NL]) @ [NL]) \<and>
   (tag \<in> set [''li'', ''tr'', ''br''] \<longrightarrow>
      extractText (Node ElementNode tag kids) sb = fold extractText kids (sb @ [NL])) \<and>
   (tag \<in> set [''ul'', ''ol'', ''table''] \<longrightarrow>
      extractText (Node ElementNode tag kids) sb = fold extractText kids sb @ [NL])"
  by auto

theorem extractText_newlines_witness:
  "''p'' \<in> set [''p'', ''div'', ''h1'', ''h2'', ''h3'', ''h4'', ''h5'', ''h6''] \<and>
   extractText (Node ElementNode ''p'' [Node TextNode ''x'' []]) ''a'' = ''a'' @ [NL] @ ''x'' @ [NL] \<and>
   ''li'' \<in> set [''li'', ''tr'', ''br''] \<and>
   extractText (Node ElementNode ''li'' [Node TextNode ''x'' []]) ''a'' = ''a'' @ [NL] @ ''x'' \<and>
   ''ul'' \<in> set [''ul'', ''ol'', ''table''] \<and>
   extractText (Node ElementNode ''ul'' [Node TextNode ''x'' []]) ''a'' = ''a'' @ ''x'' @ [NL]"
  using extractText_newlines [of "''p''" "[Node TextNode ''x'' []]" "''a''"]
    extractText_newlines [of "''li''" "[Node TextNode ''x'' []]" "''a''"]
    extractText_newlines [of "''ul''" "[Node TextNode ''x'' []]" "''a''"]
  by simp

text \<open>
  Claim C7 as stated fails on \<^verbatim>\<open>li\<close>: the list item with the text \<open>x\<close> gives a line
  feed and \<open>x\<close>, with no line feed after the children.
\<close>

theorem extractText_li_counterexample:
  "extractText (Node ElementNode ''li'' [Node TextNode ''x'' []]) [] = [NL, CHR ''x''] \<and>
   extractText (Node ElementNode ''li'' [Node TextNode ''x'' []]) []
     \<noteq> fold extractText [Node TextNode ''x'' []] ([] @ [NL]) @ [NL]"
  by simp

section \<open>The whitespace cleanup\<close>

text \<open>
  Claim C8 fails on the code. The runs of line feeds are collapsed before the lines are
  trimmed, so lines that hold only a space leave four line feeds in a row in the result,
  and a second cleanup collapses them.
\<close>

theorem cleanWhitespace_not_idempotent:
  "cleanWhitespace ''a\<newline> \<newline> \<newline> \<newline>b'' = ''a\<newline>\<newline>\<newline>\<newline>b'' \<and>
   cleanWhitespace (cleanWhitespace ''a\<newline> \<newline> \<newline> \<newline>b'') = ''a\<newline>\<newline>b'' \<and>
   cleanWhitespace (cleanWhitespace ''a\<newline> \<newline> \<newline> \<newline>b'')
     \<noteq> cleanWhitespace ''a\<newline> \<newline> \<newline> \<newline>b''"
  by code_simp

text \<open>
  Both paths of \<^verbatim>\<open>htmlToTextWithOptions\<close> produce that text from
  \<^verbatim>\<open>a<br> <br> <br> <br>b\<close>: the tree walk over its tree, and the fallback.
\<close>

lemma html_paths_reach_unstable_text:
  "extractText sample_doc [] = ''a\<newline> \<newline> \<newline> \<newline>b'' \<and>
   htmlToTextWithOptions (\<lambda>s. Some sample_doc) ''a<br> <br> <br> <br>b'' False
     = ''a\<newline>\<newline>\<newline>\<newline>b'' \<and>
   htmlToTextWithOptions parse_fails ''a<br> <br> <br> <br>b'' False
     = ''a\<newline>\<newline>\<newline>\<newline>b''"
  by code_simp

section \<open>The subject key\<close>

text \<open>
  Claim C4 fails on the code. The prefixes are stripped before the text is trimmed, so a
  subject with a space in front of \<open>Re:\<close> keeps the prefix, and a second normalization
  strips it.
\<close>

theorem NormalizeSubject_not_idempotent:
  "NormalizeSubject lower_runes '' Re: Hello'' = ''re: hello'' \<and>
   NormalizeSubject lower_runes (NormalizeSubject lower_runes '' Re: Hello'') = ''hello'' \<and>
   NormalizeSubject lower_runes (NormalizeSubject lower_runes '' Re: Hello'') \<noteq> NormalizeSubject lower_runes '' Re: Hello''"
  by code_simp

text \<open>The instance the specification gives does hold.\<close>

lemma NormalizeSubject_example:
  "NormalizeSubject lower_runes ''RE: Re: Hello'' = ''hello'' \<and> NormalizeSubject lower_runes ''hello'' = ''hello''"
  by code_simp

section \<open>Quote stripping\<close>

text \<open>
  Claim C5, as the code has it: the four patterns cut the body in the order attribution
  line, forwarded-message marker, original-message marker, Outlook header block, each on
  what the cut before it left and each trimming the text it keeps; then every match of
  the quoted-line pattern is replaced by nothing, which empties the line and keeps its
  line feed; then a run of three or more line feeds becomes two; then the result is
  trimmed. The example of the specification gives \<open>Body text\<close>.
\<close>

theorem StripQuotes_steps:
  "StripQuotes body =
     TrimSpace (ReplaceAllString (Rep (OneOf [NL]) 3)
       (ReplaceAllString quotedLinePattern
          (cut_before outlookHeaderPattern
            (cut_before originalMsgPattern
              (cut_before forwardedPattern
                (cut_before attributionPattern body)))) [])
       [NL, NL]) \<and>
   StripQuotes ''Body text\<newline>On Jan 1, 2024 at 10:00 AM John <j@x.com> wrote:\<newline>> quoted''
     = ''Body text''"
proof
  show "StripQuotes body =
     TrimSpace (ReplaceAllString (Rep (OneOf [NL]) 3)
       (ReplaceAllString quotedLinePattern
          (cut_before outlookHeaderPattern
            (cut_before originalMsgPattern
              (cut_before forwardedPattern
                (cut_before attributionPattern body)))) [])
       [NL, NL])"
    by (simp add: StripQuotes_def cut_before_def Let_def)
  show "StripQuotes ''Body text\<newline>On Jan 1, 2024 at 10:00 AM John <j@x.com> wrote:\<newline>> quoted''
     = ''Body text''"
    by code_simp
qed

theorem StripQuotes_steps_witness:
  "StripQuotes ''Hi\<newline>>old\<newline>\<newline>\<newline>\<newline>Bye\<newline>-----Original Message-----\<newline>x'' =
     TrimSpace (ReplaceAllString (Rep (OneOf [NL]) 3)
       (ReplaceAllString quotedLinePattern
          (cut_before outlookHeaderPattern
            (cut_before originalMsgPattern
              (cut_before forwardedPattern
                (cut_before attributionPattern
                   ''Hi\<newline>>old\<newline>\<newline>\<newline>\<newline>Bye\<newline>-----Original Message-----\<newline>x'')))) [])
       [NL, NL]) \<and>
   StripQuotes ''Hi\<newline>>old\<newline>\<newline>\<newline>\<newline>Bye\<newline>-----Original Message-----\<newline>x''
     = ''Hi\<newline>\<newline>Bye''"
proof (intro conjI)
  show "StripQuotes ''Hi\<newline>>old\<newline>\<newline>\<newline>\<newline>Bye\<newline>-----Original Message-----\<newline>x'' =
     TrimSpace (ReplaceAllString (Rep (OneOf [NL]) 3)
       (ReplaceAllString quotedLinePattern
          (cut_before outlookHeaderPattern
            (cut_before originalMsgPattern
              (cut_before forwardedPattern
                (cut_before attributionPattern
                   ''Hi\<newline>>old\<newline>\<newline>\<newline>\<newline>Bye\<newline>-----Original Message-----\<newline>x'')))) [])
       [NL, NL])"
    by (rule StripQuotes_steps [THEN conjunct1])
  show "StripQuotes ''Hi\<newline>>old\<newline>\<newline>\<newline>\<newline>Bye\<newline>-----Original Message-----\<newline>x''
     = ''Hi\<newline>\<newline>Bye''"
    by code_simp
qed

text \<open>
  Claim C5 as stated fails. Nothing in its words touches the space in front of \<open>a\<close>,
  and three blank lines should become two; the code trims the space and leaves one blank
  line.
\<close>

theorem StripQuotes_described_counterexample:
  "StripQuotes '' a\<newline>\<newline>\<newline>\<newline>b'' = ''a\<newline>\<newline>b'' \<and>
   StripQuotes_described '' a\<newline>\<newline>\<newline>\<newline>b'' = '' a\<newline>\<newline>\<newline>b'' \<and>
   StripQuotes '' a\<newline>\<newline>\<newline>\<newline>b'' \<noteq> StripQuotes_described '' a\<newline>\<newline>\<newline>\<newline>b''"
  by code_simp

text \<open>A quoted line is emptied, not removed: its line feed stays.\<close>

lemma quoted_line_is_emptied:
  "StripQuotes ''a\<newline>>q\<newline>b'' = ''a\<newline>\<newline>b''"
  by code_simp

section \<open>Signature stripping\<close>

text \<open>
  No phrase pattern matches the empty line, so skipping the empty lines changes nothing
  but the time.
\<close>

lemma empty_line_is_no_phrase: "\<not> is_sig_phrase []"
  by code_simp

lemma sig_loop_scan:
  assumes "k \<le> length ls"
  shows "sig_loop ls body (int k - 1) =
    (let hits = filter (\<lambda>i. is_sig_phrase (TrimSpace (ls ! i))) [length ls - 5 ..< k]
     in if hits = [] then body else TrimSpace (Join (take (last hits) ls)))"
  using assms
proof (induction k)
  case 0
  then show ?case
    by (subst sig_loop.simps) simp
next
  case (Suc k)
  then have IH: "sig_loop ls body (int k - 1) =
    (let hits = filter (\<lambda>i. is_sig_phrase (TrimSpace (ls ! i))) [length ls - 5 ..< k]
     in if hits = [] then body else TrimSpace (Join (take (last hits) ls)))"
    by simp
  show ?case
  proof (cases "length ls - 5 \<le> k")
    case True
    then have window: "[length ls - 5 ..< Suc k] = [length ls - 5 ..< k] @ [k]"
      by simp
    from True have cond: "int k \<ge> 0 \<and> int k \<ge> int (length ls) - 5"
      by linarith
    have unroll: "sig_loop ls body (int (Suc k) - 1) =
        (if TrimSpace (ls ! k) = [] then sig_loop ls body (int k - 1)
         else if is_sig_phrase (TrimSpace (ls ! k)) then TrimSpace (Join (take k ls))
         else sig_loop ls body (int k - 1))"
      using cond by (subst sig_loop.simps) (simp add: Let_def is_sig_phrase_def)
    show ?thesis
    proof (cases "is_sig_phrase (TrimSpace (ls ! k))")
      case phrase: True
      then have "TrimSpace (ls ! k) \<noteq> []"
        using empty_line_is_no_phrase by auto
      with phrase show ?thesis
        unfolding unroll window by (simp add: Let_def)
    next
      case no_phrase: False
      with IH show ?thesis
        unfolding unroll window by (simp add: Let_def)
    qed
  next
    case False
    then have "[length ls - 5 ..< Suc k] = []" by simp
    moreover from False have "\<not> (int (Suc k) - 1 \<ge> 0 \<and> int (Suc k) - 1 \<ge> int (length ls) - 5)"
      by linarith
    ultimately show ?thesis
      by (subst sig_loop.simps) (simp add: Let_def)
  qed
qed

text \<open>
  Claim C6, as the code has it: the body is cut before the first delimiter line, and
  trimmed, when there is one. Then, in both cases, the last five lines of what is left
  are scanned from the end, the empty ones among them counted, and at the first line
  whose trimmed text matches a phrase pattern the result is the trimmed text before
  that line; with no such line the result is what the cut left. The two examples of the
  specification give \<open>Hello\<close>.
\<close>

theorem StripSignature_steps:
  "StripSignature body =
     (let cut = cut_before sigDelimiterPattern body;
          lines = Split cut;
          hits = filter (\<lambda>i. is_sig_phrase (TrimSpace (lines ! i)))
                   [length lines - 5 ..< length lines]
      in if hits = [] then cut else TrimSpace (Join (take (last hits) lines))) \<and>
   StripSignature ''Hello\<newline>\<newline>--\<newline>John Doe'' = ''Hello'' \<and>
   StripSignature ''Hello\<newline>\<newline>Sent from my iPhone'' = ''Hello''"
proof (intro conjI)
  show "StripSignature body =
     (let cut = cut_before sigDelimiterPattern body;
          lines = Split cut;
          hits = filter (\<lambda>i. is_sig_phrase (TrimSpace (lines ! i)))
                   [length lines - 5 ..< length lines]
      in if hits = [] then cut else TrimSpace (Join (take (last hits) lines)))"
    using sig_loop_scan [of "length (Split (cut_before sigDelimiterPattern body))"
        "Split (cut_before sigDelimiterPattern body)" "cut_before sigDelimiterPattern body"]
    by (simp add: StripSignature_def cut_before_def Let_def)
  show "StripSignature ''Hello\<newline>\<newline>--\<newline>John Doe'' = ''Hello''"
    by code_simp
  show "StripSignature ''Hello\<newline>\<newline>Sent from my iPhone'' = ''Hello''"
    by code_simp
qed

theorem StripSignature_steps_witness:
  "StripSignature ''Hi\<newline>Sent from my iPhone\<newline>--\<newline>John'' =
     (let cut = cut_before sigDelimiterPattern ''Hi\<newline>Sent from my iPhone\<newline>--\<newline>John'';
          lines = Split cut;
          hits = filter (\<lambda>i. is_sig_phrase (TrimSpace (lines ! i)))
                   [length lines - 5 ..< length lines]
      in if hits = [] then cut else TrimSpace (Join (take (last hits) lines))) \<and>
   cut_before sigDelimiterPattern ''Hi\<newline>Sent from my iPhone\<newline>--\<newline>John''
     = ''Hi\<newline>Sent from my iPhone'' \<and>
   StripSignature ''Hi\<newline>Sent from my iPhone\<newline>--\<newline>John'' = ''Hi''"
proof (intro conjI)
  show "StripSignature ''Hi\<newline>Sent from my iPhone\<newline>--\<newline>John'' =
     (let cut = cut_before sigDelimiterPattern ''Hi\<newline>Sent from my iPhone\<newline>--\<newline>John'';
          lines = Split cut;
          hits = filter (\<lambda>i. is_sig_phrase (TrimSpace (lines ! i)))
                   [length lines - 5 ..< length lines]
      in if hits = [] then cut else TrimSpace (Join (take (last hits) lines)))"
    by (rule StripSignature_steps [THEN conjunct1])
  show "cut_before sigDelimiterPattern ''Hi\<newline>Sent from my iPhone\<newline>--\<newline>John''
     = ''Hi\<newline>Sent from my iPhone''"
    by code_simp
  show "StripSignature ''Hi\<newline>Sent from my iPhone\<newline>--\<newline>John'' = ''Hi''"
    by code_simp
qed

text \<open>
  Claim C6 as stated fails: with a delimiter line the claim stops at the cut, and the
  code scans on and takes the phrase line above the delimiter as well.
\<close>

theorem StripSignature_described_counterexample:
  "StripSignature ''Hi\<newline>Sent from my iPhone\<newline>--\<newline>John'' = ''Hi'' \<and>
   StripSignature_described ''Hi\<newline>Sent from my iPhone\<newline>--\<newline>John''
     = ''Hi\<newline>Sent from my iPhone'' \<and>
   StripSignature ''Hi\<newline>Sent from my iPhone\<newline>--\<newline>John''
     \<noteq> StripSignature_described ''Hi\<newline>Sent from my iPhone\<newline>--\<newline>John''"
  by code_simp

text \<open>
  The scan looks at the last five lines, not at the last five lines that are not empty:
  a phrase line with five empty lines and one more line after it stays.
\<close>

lemma blank_lines_count_in_window:
  "StripSignature ''Sent from my iPhone\<newline>\<newline>\<newline>\<newline>\<newline>\<newline>Bye''
     = ''Sent from my iPhone\<newline>\<newline>\<newline>\<newline>\<newline>\<newline>Bye''"
  by code_simp

section \<open>No match, no replacement\<close>

lemma replace_from_no_match:
  "find_from r i ps = None \<Longrightarrow> replace_from r repl ps = snd ps"
proof (induction r i ps rule: find_from.induct)
  case (1 r i p s)
  from "1.prems" have none: "rmatch r (p, s) = []"
    by (auto split: list.splits)
  show ?case
  proof (cases s)
    case Nil
    with none show ?thesis
      by (subst replace_from.simps) simp
  next
    case (Cons c cs)
    with "1.prems" none have "find_from r (Suc i) (Some c, cs) = None"
      by simp
    with "1.IH" none Cons have "replace_from r repl (Some c, cs) = cs"
      by simp
    with none Cons show ?thesis
      by (subst replace_from.simps) simp
  qed
qed

lemma ReplaceAllString_no_match:
  "FindStringIndex r s = None \<Longrightarrow> ReplaceAllString r s repl = s"
  using replace_from_no_match [of r 0 "(None, s)" repl]
  by (simp add: FindStringIndex_def ReplaceAllString_def)

section \<open>Trimming\<close>






section \<open>Runs of line feeds\<close>



lemma prefix_replicate_NL:
  "prefix (replicate k NL) s \<longleftrightarrow> k \<le> length (takeWhile (\<lambda>c. c = NL) s)"
proof (induction s arbitrary: k)
  case Nil
  then show ?case by simp
next
  case (Cons c cs)
  then show ?case by (cases k) auto
qed

lemma rep_ends_NL_empty:
  "rep_ends (OneOf [NL]) n (p, s) = [] \<longleftrightarrow> length (takeWhile (\<lambda>c. c = NL) s) < n"
proof (induction s arbitrary: n p)
  case Nil
  then show ?case by simp
next
  case (Cons c cs)
  then show ?case by (cases n) auto
qed


lemma no_triple_Cons:
  "\<not> sublist [NL, NL, NL] (c # s) \<longleftrightarrow>
     \<not> prefix [NL, NL, NL] (c # s) \<and> \<not> sublist [NL, NL, NL] s"
  by (simp add: sublist_Cons_right)

lemma prefix_triple:
  "prefix [NL, NL, NL] s \<longleftrightarrow> 3 \<le> length (takeWhile (\<lambda>c. c = NL) s)"
  using prefix_replicate_NL [of 3 s] by (simp add: numeral_3_eq_3)




lemma no_triple_no_match:
  "\<not> sublist [NL, NL, NL] s \<Longrightarrow> find_from (Rep (OneOf [NL]) 3) i (p, s) = None"
proof (induction s arbitrary: i p)
  case Nil
  then show ?case by simp
next
  case (Cons c cs)
  from Cons.prems have np: "\<not> prefix [NL, NL, NL] (c # cs)"
    and rest: "\<not> sublist [NL, NL, NL] cs"
    using no_triple_Cons [of c cs] by blast+
  from np have "length (takeWhile (\<lambda>c. c = NL) (c # cs)) < 3"
    using prefix_triple [of "c # cs"] by linarith
  then have "rep_ends (OneOf [NL]) 3 (p, c # cs) = []"
    using rep_ends_NL_empty [of 3 p "c # cs"] by blast
  then have "rmatch (Rep (OneOf [NL]) 3) (p, c # cs) = []"
    by (simp only: rmatch.simps)
  with Cons.IH [OF rest] show ?case by simp
qed


section \<open>Lines\<close>





section \<open>What the passes leave\<close>




lemma StripSignature_closed_form:
  "StripSignature body =
     (let cut = cut_before sigDelimiterPattern body;
          lines = Split cut;
          hits = filter (\<lambda>i. is_sig_phrase (TrimSpace (lines ! i)))
                   [length lines - 5 ..< length lines]
      in if hits = [] then cut else TrimSpace (Join (take (last hits) lines)))"
  using sig_loop_scan [of "length (Split (cut_before sigDelimiterPattern body))"
      "Split (cut_before sigDelimiterPattern body)" "cut_before sigDelimiterPattern body"]
  by (simp add: StripSignature_def cut_before_def Let_def)


lemma StripQuotes_fixed:
  assumes "FindStringIndex attributionPattern r = None"
    and "FindStringIndex forwardedPattern r = None"
    and "FindStringIndex originalMsgPattern r = None"
    and "FindStringIndex outlookHeaderPattern r = None"
    and "FindStringIndex quotedLinePattern r = None"
    and "TrimSpace r = r" and "\<not> sublist [NL, NL, NL] r"
  shows "StripQuotes r = r"
proof -
  have "FindStringIndex (Rep (OneOf [NL]) 3) r = None"
    unfolding FindStringIndex_def using assms(7) by (rule no_triple_no_match)
  with assms show ?thesis
    by (simp add: StripQuotes_def Let_def ReplaceAllString_no_match)
qed

lemma StripSignature_fixed:
  assumes "FindStringIndex sigDelimiterPattern r = None"
    and "filter (\<lambda>i. is_sig_phrase (TrimSpace (Split r ! i)))
           [length (Split r) - 5 ..< length (Split r)] = []"
  shows "StripSignature r = r"
  using assms by (simp add: StripSignature_closed_form cut_before_def Let_def)

section \<open>The cleaning pipeline\<close>



text \<open>
  A body that already holds nothing for the passes that are on comes back unchanged.
  Here the body is any text, so that it is trimmed and has no three line feeds in a row
  is asked of it.
\<close>

lemma CleanBody_nothing_to_strip:
  assumes "\<not> (Contains body (CHR ''<'') \<and> Contains body (CHR ''>''))"
    and "StripQuotes_opt opts \<Longrightarrow>
      FindStringIndex attributionPattern body = None \<and>
      FindStringIndex forwardedPattern body = None \<and>
      FindStringIndex originalMsgPattern body = None \<and>
      FindStringIndex outlookHeaderPattern body = None \<and>
      FindStringIndex quotedLinePattern body = None \<and>
      TrimSpace body = body \<and> \<not> sublist [NL, NL, NL] body"
    and "StripSignatures_opt opts \<Longrightarrow>
      FindStringIndex sigDelimiterPattern body = None \<and>
      filter (\<lambda>i. is_sig_phrase (TrimSpace (Split body ! i)))
        [length (Split body) - 5 ..< length (Split body)] = []"
  shows "CleanBody parse body opts = body"
proof -
  have q: "StripQuotes body = body" if "StripQuotes_opt opts"
    using assms(2) [OF that] by (intro StripQuotes_fixed) simp_all
  have s: "StripSignature body = body" if "StripSignatures_opt opts"
    using assms(3) [OF that] by (intro StripSignature_fixed) simp_all
  from assms(1) q s show ?thesis
    by (auto simp: CleanBody_def Let_def)
qed

text \<open>A plain text with nothing to strip comes back unchanged under the default options.\<close>

lemma plain_text_with_default_options:
  "CleanBody parse_fails ''Hello there'' DefaultLLMOptions = ''Hello there''"
  by code_simp


text \<open>
  Quote stripping alone is not stable either: emptying a quoted line puts the marker
  text within reach of the dashes above it.
\<close>

lemma StripQuotes_not_idempotent:
  "StripQuotes ''-----\<newline>>x\<newline>Forwarded message-----''
     = ''-----\<newline>\<newline>Forwarded message-----'' \<and>
   StripQuotes (StripQuotes ''-----\<newline>>x\<newline>Forwarded message-----'') = []"
  by code_simp

text \<open>
  Trimming can put a quote marker at the start of a line, and a delimiter on a line of
  its own.
\<close>

lemma trimming_exposes_quote_and_delimiter:
  "StripQuotes '' >q'' = ''>q'' \<and> StripQuotes ''>q'' = [] \<and>
   StripSignature [CHR ''-'', CHR ''-'', CHR 0x0B, NL, CHR ''-'', CHR ''-''] = ''--'' \<and>
   StripSignature ''--'' = []"
  by code_simp

text \<open>
  A cleaned text that holds both characters is taken for markup
  by the second cleaning. Here on the fallback path, where the entities are decoded.
\<close>

lemma markup_result_is_cleaned_again:
  "CleanBody parse_fails ''<i>&lt;b&gt;x</i>'' strip_nothing = ''<b>x'' \<and>
   CleanBody parse_fails (CleanBody parse_fails ''<i>&lt;b&gt;x</i>'' strip_nothing) strip_nothing = ''x''"
  by code_simp

section \<open>The insertion sort meets the contract\<close>

lemma mset_insert_by: "mset (insert_by lt x ys) = add_mset x (mset ys)"
  by (induction ys) auto

lemma mset_fold_insert_by: "mset (fold (insert_by lt) xs acc) = mset xs + mset acc"
  by (induction xs arbitrary: acc) (auto simp: mset_insert_by)

lemma set_insert_by: "set (insert_by lt x ys) = insert x (set ys)"
  by (induction ys) auto

lemma descending_insert_by:
  fixes key :: "'a \<Rightarrow> int"
  assumes "sorted_wrt (\<lambda>a b. key b \<le> key a) ys"
  shows "sorted_wrt (\<lambda>a b. key b \<le> key a) (insert_by (\<lambda>a b. Before (key a) (key b)) x ys)"
  using assms
proof (induction ys)
  case Nil
  then show ?case by simp
next
  case (Cons y ys)
  then show ?case
    by (auto simp: set_insert_by Before_def)
qed

lemma descending_fold_insert_by:
  fixes key :: "'a \<Rightarrow> int"
  assumes "sorted_wrt (\<lambda>a b. key b \<le> key a) acc"
  shows "sorted_wrt (\<lambda>a b. key b \<le> key a)
    (fold (insert_by (\<lambda>a b. Before (key a) (key b))) xs acc)"
  using assms by (induction xs arbitrary: acc) (auto intro: descending_insert_by)

lemma insertion_sort_contract: "sort_contract insertion_sort"
proof -
  have perm: "mset (insertion_sort lt xs) = mset xs" for lt and xs :: "Email list"
    by (simp add: insertion_sort_def mset_fold_insert_by)
  have ord: "sorted (map key (insertion_sort (\<lambda>a b. Before (key a) (key b)) xs))"
    for key :: "Email \<Rightarrow> Time" and xs
  proof -
    have "sorted_wrt (\<lambda>a b. key b \<le> key a)
        (fold (insert_by (\<lambda>a b. Before (key a) (key b))) xs [])"
      by (rule descending_fold_insert_by) simp
    then show ?thesis
      by (simp add: insertion_sort_def sorted_map sorted_wrt_rev)
  qed
  from perm ord show ?thesis
    unfolding sort_contract_def by blast
qed

section \<open>First occurrences\<close>

lemma set_first_seen: "set (first_seen xs) = set xs"
  by (induction xs) auto

lemma distinct_first_seen: "distinct (first_seen xs)"
  by (induction xs) (auto simp: set_first_seen)

lemma first_seen_snoc:
  "first_seen (xs @ [x]) = (if x \<in> set xs then first_seen xs else first_seen xs @ [x])"
  by (induction xs) (auto simp: set_first_seen)

section \<open>The two loops\<close>

lemma fold_group_step:
  "fold (group_step lower_runes) emails (Map.empty, []) =
     ((\<lambda>k. if k \<in> subject_key lower_runes ` set emails
            then Some (filter (\<lambda>e. subject_key lower_runes e = k) emails) else None),
      first_seen (map (subject_key lower_runes) emails))"
proof (induction emails rule: rev_induct)
  case Nil
  then show ?case by simp
next
  case (snoc email emails)
  have "group_step lower_runes email
      ((\<lambda>k. if k \<in> subject_key lower_runes ` set emails
            then Some (filter (\<lambda>e. subject_key lower_runes e = k) emails) else None),
       first_seen (map (subject_key lower_runes) emails)) =
     ((\<lambda>k. if k \<in> subject_key lower_runes ` set (emails @ [email])
            then Some (filter (\<lambda>e. subject_key lower_runes e = k) (emails @ [email])) else None),
      first_seen (map (subject_key lower_runes) (emails @ [email])))"
    by (auto simp: group_step_def Let_def first_seen_snoc fun_eq_iff filter_empty_conv)
      (metis imageI)
  with snoc show ?case by simp
qed

lemma build_item_Some:
  assumes srt: "sort_contract srt" and g: "groups k = Some g" and ne: "g \<noteq> []"
  shows "\<exists>it. build_item srt parse groups k = Some it \<and>
    NormalizedSubject it = k \<and>
    mset (Emails it) = mset g \<and>
    Emails it \<noteq> [] \<and>
    EmailCount it = int (length (Emails it)) \<and>
    sorted (map (\<lambda>e. parse_drop_err parse (ReceivedAt e)) (Emails it)) \<and>
    ThreadItem.Subject it = Email.Subject (last (Emails it)) \<and>
    ThreadItem.From it = display_from (last (Emails it)) \<and>
    Date it = parse_drop_err parse (ReceivedAt (last (Emails it))) \<and>
    ThreadItem.Preview it = Email.Preview (last (Emails it))"
proof -
  let ?lt = "\<lambda>a b. Before (parse_drop_err parse (ReceivedAt a)) (parse_drop_err parse (ReceivedAt b))"
  let ?s = "srt ?lt g"
  from srt have perm: "mset ?s = mset g"
    by (simp add: sort_contract_def)
  from srt have ord: "sorted (map (\<lambda>e. parse_drop_err parse (ReceivedAt e)) ?s)"
    unfolding sort_contract_def by blast
  from perm ne have sne: "?s \<noteq> []"
    by (metis mset_zero_iff)
  then have last: "?s ! (length ?s - 1) = last ?s"
    by (simp add: last_conv_nth)
  from sne perm ord last g show ?thesis
    by (simp add: build_item_def Let_def)
qed

lemma build_items_map:
  assumes "\<And>k. k \<in> set ks \<Longrightarrow> build_item srt parse groups k \<noteq> None"
  shows "build_items srt parse groups ks
    = Some (map (\<lambda>k. the (build_item srt parse groups k)) ks)"
  using assms by (induction ks) (auto split: option.splits)

lemma mset_filter_by_keys:
  assumes "distinct ks"
  shows "(\<Sum>k\<leftarrow>ks. mset (filter (\<lambda>e. key e = k) xs)) = mset (filter (\<lambda>e. key e \<in> set ks) xs)"
  using assms
proof (induction ks)
  case Nil
  then show ?case by simp
next
  case (Cons k ks)
  have "mset (filter (\<lambda>e. key e = k) xs) + mset (filter (\<lambda>e. key e \<in> set ks) xs)
      = mset (filter (\<lambda>e. key e \<in> set (k # ks)) xs)"
    using Cons.prems by (induction xs) auto
  with Cons show ?case by simp
qed

text \<open>What the grouping returns, conversation by conversation.\<close>

lemma GroupEmailsBySubject_items:
  assumes srt: "sort_contract srt"
  shows "\<exists>items. GroupEmailsBySubject srt parse lower_runes emails = Some items \<and>
    map NormalizedSubject items = first_seen (map (subject_key lower_runes) emails) \<and>
    (\<forall>it \<in> set items.
       mset (Emails it) = mset (filter (\<lambda>e. subject_key lower_runes e = NormalizedSubject it) emails) \<and>
       Emails it \<noteq> [] \<and>
       EmailCount it = int (length (Emails it)) \<and>
       sorted (map (\<lambda>e. parse_drop_err parse (ReceivedAt e)) (Emails it)) \<and>
       ThreadItem.Subject it = Email.Subject (last (Emails it)) \<and>
       ThreadItem.From it = display_from (last (Emails it)) \<and>
       Date it = parse_drop_err parse (ReceivedAt (last (Emails it))) \<and>
       ThreadItem.Preview it = Email.Preview (last (Emails it)))"
proof -
  let ?groups = "\<lambda>k. if k \<in> subject_key lower_runes ` set emails
            then Some (filter (\<lambda>e. subject_key lower_runes e = k) emails) else None"
  let ?order = "first_seen (map (subject_key lower_runes) emails)"
  let ?item = "\<lambda>k. the (build_item srt parse ?groups k)"
  have item: "\<exists>it. build_item srt parse ?groups k = Some it \<and>
    NormalizedSubject it = k \<and>
    mset (Emails it) = mset (filter (\<lambda>e. subject_key lower_runes e = k) emails) \<and>
    Emails it \<noteq> [] \<and>
    EmailCount it = int (length (Emails it)) \<and>
    sorted (map (\<lambda>e. parse_drop_err parse (ReceivedAt e)) (Emails it)) \<and>
    ThreadItem.Subject it = Email.Subject (last (Emails it)) \<and>
    ThreadItem.From it = display_from (last (Emails it)) \<and>
    Date it = parse_drop_err parse (ReceivedAt (last (Emails it))) \<and>
    ThreadItem.Preview it = Email.Preview (last (Emails it))"
    if "k \<in> set ?order" for k
  proof (rule build_item_Some [OF srt])
    from that show "?groups k = Some (filter (\<lambda>e. subject_key lower_runes e = k) emails)"
      by (simp add: set_first_seen)
    from that show "filter (\<lambda>e. subject_key lower_runes e = k) emails \<noteq> []"
      by (auto simp: set_first_seen filter_empty_conv)
  qed
  then have "build_items srt parse ?groups ?order = Some (map ?item ?order)"
    by (intro build_items_map) fastforce
  then have res: "GroupEmailsBySubject srt parse lower_runes emails = Some (map ?item ?order)"
    by (simp add: GroupEmailsBySubject_def fold_group_step)
  have keys: "map NormalizedSubject (map ?item ?order) = ?order"
    using item by (intro map_idI [THEN trans [OF map_map]]) fastforce
  have each: "\<forall>it \<in> set (map ?item ?order).
       mset (Emails it) = mset (filter (\<lambda>e. subject_key lower_runes e = NormalizedSubject it) emails) \<and>
       Emails it \<noteq> [] \<and>
       EmailCount it = int (length (Emails it)) \<and>
       sorted (map (\<lambda>e. parse_drop_err parse (ReceivedAt e)) (Emails it)) \<and>
       ThreadItem.Subject it = Email.Subject (last (Emails it)) \<and>
       ThreadItem.From it = display_from (last (Emails it)) \<and>
       Date it = parse_drop_err parse (ReceivedAt (last (Emails it))) \<and>
       ThreadItem.Preview it = Email.Preview (last (Emails it))"
  proof
    fix it assume "it \<in> set (map ?item ?order)"
    then obtain k where k: "k \<in> set ?order" and it: "it = ?item k" by auto
    from item [OF k] it show "mset (Emails it) = mset (filter (\<lambda>e. subject_key lower_runes e = NormalizedSubject it) emails) \<and>
       Emails it \<noteq> [] \<and>
       EmailCount it = int (length (Emails it)) \<and>
       sorted (map (\<lambda>e. parse_drop_err parse (ReceivedAt e)) (Emails it)) \<and>
       ThreadItem.Subject it = Email.Subject (last (Emails it)) \<and>
       ThreadItem.From it = display_from (last (Emails it)) \<and>
       Date it = parse_drop_err parse (ReceivedAt (last (Emails it))) \<and>
       ThreadItem.Preview it = Email.Preview (last (Emails it))"
      by auto
  qed
  from res keys each show ?thesis by blast
qed


text \<open>
  Claim C2: the grouping returns its conversations, and their keys are the normalized
  subjects of the input in the order of their first occurrence. The subjects
  \<open>A\<close>, \<open>B\<close>, \<open>A\<close> give the conversations \<open>a\<close>, \<open>b\<close>.
\<close>

theorem GroupEmailsBySubject_first_seen_order:
  assumes "sort_contract srt"
  shows "\<exists>items. GroupEmailsBySubject srt parse lower_runes emails = Some items \<and>
    map NormalizedSubject items = first_seen (map (subject_key lower_runes) emails)"
  using GroupEmailsBySubject_items [OF assms, of parse lower_runes emails] by blast

theorem GroupEmailsBySubject_first_seen_order_witness:
  "sort_contract insertion_sort \<and>
   (\<exists>items. GroupEmailsBySubject insertion_sort parse_utc lower_ascii
        [message ''m1'' ''A'' ''2024-01-03T00:00:00Z'',
         message ''m2'' ''B'' ''2024-01-02T00:00:00Z'',
         message ''m3'' ''A'' ''2024-01-01T00:00:00Z''] = Some items \<and>
      map NormalizedSubject items = [''a'', ''b''])"
proof -
  have keys: "first_seen (map (subject_key lower_ascii)
        [message ''m1'' ''A'' ''2024-01-03T00:00:00Z'',
         message ''m2'' ''B'' ''2024-01-02T00:00:00Z'',
         message ''m3'' ''A'' ''2024-01-01T00:00:00Z'']) = [''a'', ''b'']"
    by code_simp
  from GroupEmailsBySubject_first_seen_order [OF insertion_sort_contract, of parse_utc lower_ascii
        "[message ''m1'' ''A'' ''2024-01-03T00:00:00Z'',
         message ''m2'' ''B'' ''2024-01-02T00:00:00Z'',
         message ''m3'' ''A'' ''2024-01-01T00:00:00Z'']"]
  show ?thesis
    unfolding keys using insertion_sort_contract by blast
qed

text \<open>
  Claim C10: the grouping never fails at its last-member index; the member lists taken
  together are the input, message for message; the keys of the conversations differ, and
  the members of a conversation are the input messages of its key, so a message is in
  one member list only; no member list is empty; \<^verbatim>\<open>EmailCount\<close> is the length of the
  member list, and the counts add up to the length of the input.
\<close>

theorem GroupEmailsBySubject_partition:
  assumes "sort_contract srt"
  shows "\<exists>items. GroupEmailsBySubject srt parse lower_runes emails = Some items \<and>
    mset (concat (map Emails items)) = mset emails \<and>
    distinct (map NormalizedSubject items) \<and>
    (\<forall>it \<in> set items.
       Emails it \<noteq> [] \<and>
       EmailCount it = int (length (Emails it)) \<and>
       mset (Emails it) = mset (filter (\<lambda>e. subject_key lower_runes e = NormalizedSubject it) emails)) \<and>
    sum_list (map EmailCount items) = int (length emails)"
proof -
  from GroupEmailsBySubject_items [OF assms, of parse lower_runes emails]
  obtain items where res: "GroupEmailsBySubject srt parse lower_runes emails = Some items"
    and keys: "map NormalizedSubject items = first_seen (map (subject_key lower_runes) emails)"
    and each: "\<forall>it \<in> set items.
       mset (Emails it) = mset (filter (\<lambda>e. subject_key lower_runes e = NormalizedSubject it) emails) \<and>
       Emails it \<noteq> [] \<and> EmailCount it = int (length (Emails it))"
    by blast
  have dist: "distinct (map NormalizedSubject items)"
    by (simp add: keys distinct_first_seen)
  have "mset (concat (map Emails items)) = (\<Sum>it\<leftarrow>items. mset (Emails it))"
    by (simp add: mset_concat comp_def)
  also have "\<dots> = (\<Sum>it\<leftarrow>items. mset (filter (\<lambda>e. subject_key lower_runes e = NormalizedSubject it) emails))"
    using each by (intro arg_cong [where f = sum_list] map_cong) auto
  also have "\<dots> = (\<Sum>k\<leftarrow>map NormalizedSubject items.
      mset (filter (\<lambda>e. subject_key lower_runes e = k) emails))"
    by (simp add: comp_def)
  also have "\<dots> = mset (filter (\<lambda>e. subject_key lower_runes e \<in> set (map NormalizedSubject items)) emails)"
    using dist by (rule mset_filter_by_keys)
  also have "\<dots> = mset emails"
    by (simp add: keys set_first_seen)
  finally have part: "mset (concat (map Emails items)) = mset emails" .
  have "sum_list (map EmailCount items) = (\<Sum>it\<leftarrow>items. int (length (Emails it)))"
    using each by (intro arg_cong [where f = sum_list] map_cong) auto
  also have "\<dots> = int (length (concat (map Emails items)))"
    by (induction items) auto
  also have "\<dots> = int (length emails)"
    using part by (metis size_mset)
  finally have total: "sum_list (map EmailCount items) = int (length emails)" .
  from res part dist each total show ?thesis by blast
qed

theorem GroupEmailsBySubject_partition_witness:
  "sort_contract insertion_sort \<and>
   map_option (map (\<lambda>it. (map ID (Emails it), EmailCount it)))
     (GroupEmailsBySubject insertion_sort parse_utc lower_ascii
        [message ''m1'' ''Hello'' ''2024-01-03T00:00:00Z'',
         message ''m2'' ''Lunch'' ''2024-01-02T00:00:00Z'',
         message ''m3'' ''Re: Hello'' ''2024-01-01T00:00:00Z''])
     = Some [([''m3'', ''m1''], 2), ([''m2''], 1)] \<and>
   (\<exists>items. GroupEmailsBySubject insertion_sort parse_utc lower_ascii
        [message ''m1'' ''Hello'' ''2024-01-03T00:00:00Z'',
         message ''m2'' ''Lunch'' ''2024-01-02T00:00:00Z'',
         message ''m3'' ''Re: Hello'' ''2024-01-01T00:00:00Z''] = Some items \<and>
      mset (concat (map Emails items)) = mset
        [message ''m1'' ''Hello'' ''2024-01-03T00:00:00Z'',
         message ''m2'' ''Lunch'' ''2024-01-02T00:00:00Z'',
         message ''m3'' ''Re: Hello'' ''2024-01-01T00:00:00Z''] \<and>
      list_all (\<lambda>it. Emails it \<noteq> [] \<and> EmailCount it = int (length (Emails it))) items \<and>
      sum_list (map EmailCount items) = 3)"
proof -
  have run: "map_option (map (\<lambda>it. (map ID (Emails it), EmailCount it)))
     (GroupEmailsBySubject insertion_sort parse_utc lower_ascii
        [message ''m1'' ''Hello'' ''2024-01-03T00:00:00Z'',
         message ''m2'' ''Lunch'' ''2024-01-02T00:00:00Z'',
         message ''m3'' ''Re: Hello'' ''2024-01-01T00:00:00Z''])
     = Some [([''m3'', ''m1''], 2), ([''m2''], 1)]"
    by code_simp
  from GroupEmailsBySubject_partition [OF insertion_sort_contract, of parse_utc lower_ascii
        "[message ''m1'' ''Hello'' ''2024-01-03T00:00:00Z'',
         message ''m2'' ''Lunch'' ''2024-01-02T00:00:00Z'',
         message ''m3'' ''Re: Hello'' ''2024-01-01T00:00:00Z'']"]
  have "\<exists>items. GroupEmailsBySubject insertion_sort parse_utc lower_ascii
        [message ''m1'' ''Hello'' ''2024-01-03T00:00:00Z'',
         message ''m2'' ''Lunch'' ''2024-01-02T00:00:00Z'',
         message ''m3'' ''Re: Hello'' ''2024-01-01T00:00:00Z''] = Some items \<and>
      mset (concat (map Emails items)) = mset
        [message ''m1'' ''Hello'' ''2024-01-03T00:00:00Z'',
         message ''m2'' ''Lunch'' ''2024-01-02T00:00:00Z'',
         message ''m3'' ''Re: Hello'' ''2024-01-01T00:00:00Z''] \<and>
      list_all (\<lambda>it. Emails it \<noteq> [] \<and> EmailCount it = int (length (Emails it))) items \<and>
      sum_list (map EmailCount items) = 3"
    by (auto simp: list_all_iff)
  with run insertion_sort_contract show ?thesis by blast
qed

text \<open>
  Claim C3, as the code has it: the members of a conversation are in ascending order of
  their parsed timestamps, where a timestamp that fails to parse counts as the zero
  \<^verbatim>\<open>Time\<close>, 0001-01-01T00:00:00Z: before every later instant, and after the earlier
  ones. The subject, sender, date and preview of the conversation are those of the last
  member of the sorted list.
\<close>

theorem GroupEmailsBySubject_sorted_newest:
  assumes "sort_contract srt"
  shows "\<exists>items. GroupEmailsBySubject srt parse lower_runes emails = Some items \<and>
    (\<forall>it \<in> set items.
       sorted (map (\<lambda>e. parse_drop_err parse (ReceivedAt e)) (Emails it)) \<and>
       (\<forall>e \<in> set (Emails it). parse (ReceivedAt e) = None \<longrightarrow>
          parse_drop_err parse (ReceivedAt e) = zeroTime) \<and>
       (\<forall>i j. i < j \<and> j < length (Emails it) \<and>
          parse (ReceivedAt (Emails it ! j)) = None \<longrightarrow>
          parse_drop_err parse (ReceivedAt (Emails it ! i)) \<le> zeroTime) \<and>
       Emails it \<noteq> [] \<and>
       ThreadItem.Subject it = Email.Subject (last (Emails it)) \<and>
       ThreadItem.From it = display_from (last (Emails it)) \<and>
       Date it = parse_drop_err parse (ReceivedAt (last (Emails it))) \<and>
       ThreadItem.Preview it = Email.Preview (last (Emails it)))"
proof -
  from GroupEmailsBySubject_items [OF assms, of parse lower_runes emails]
  obtain items where res: "GroupEmailsBySubject srt parse lower_runes emails = Some items"
    and each: "\<forall>it \<in> set items.
       sorted (map (\<lambda>e. parse_drop_err parse (ReceivedAt e)) (Emails it)) \<and>
       Emails it \<noteq> [] \<and>
       ThreadItem.Subject it = Email.Subject (last (Emails it)) \<and>
       ThreadItem.From it = display_from (last (Emails it)) \<and>
       Date it = parse_drop_err parse (ReceivedAt (last (Emails it))) \<and>
       ThreadItem.Preview it = Email.Preview (last (Emails it))"
    by blast
  have zero: "parse_drop_err parse s = zeroTime" if "parse s = None" for s
    using that by (simp add: parse_drop_err_def)
  have before: "parse_drop_err parse (ReceivedAt (ms ! i)) \<le> zeroTime"
    if "sorted (map (\<lambda>e. parse_drop_err parse (ReceivedAt e)) ms)"
      and "i < j" and "j < length ms" and "parse (ReceivedAt (ms ! j)) = None"
    for ms :: "Email list" and i j
  proof -
    from that(1-3) have "map (\<lambda>e. parse_drop_err parse (ReceivedAt e)) ms ! i
        \<le> map (\<lambda>e. parse_drop_err parse (ReceivedAt e)) ms ! j"
      by (intro sorted_nth_mono) auto
    with that(2-4) zero show ?thesis by simp
  qed
  from res each zero before show ?thesis by blast
qed

theorem GroupEmailsBySubject_sorted_newest_witness:
  "sort_contract insertion_sort \<and>
   map_option (map (\<lambda>it. (map ID (Emails it), ThreadItem.Subject it, Date it)))
     (GroupEmailsBySubject insertion_sort parse_utc lower_ascii
        [message ''m1'' ''Re: Hello'' ''2024-01-03T00:00:00Z'',
         message ''m2'' ''Hello'' ''not a date'',
         message ''m3'' ''Hello'' ''2024-01-01T00:00:00Z''])
     = Some [([''m2'', ''m3'', ''m1''], ''Re: Hello'', 63839836800)] \<and>
   (\<exists>items. GroupEmailsBySubject insertion_sort parse_utc lower_ascii
        [message ''m1'' ''Re: Hello'' ''2024-01-03T00:00:00Z'',
         message ''m2'' ''Hello'' ''not a date'',
         message ''m3'' ''Hello'' ''2024-01-01T00:00:00Z''] = Some items \<and>
      list_all (\<lambda>it.
         sorted (map (\<lambda>e. parse_drop_err parse_utc (ReceivedAt e)) (Emails it)) \<and>
         ThreadItem.Subject it = Email.Subject (last (Emails it)) \<and>
         ThreadItem.From it = display_from (last (Emails it)) \<and>
         Date it = parse_drop_err parse_utc (ReceivedAt (last (Emails it))) \<and>
         ThreadItem.Preview it = Email.Preview (last (Emails it))) items)"
proof -
  have run: "map_option (map (\<lambda>it. (map ID (Emails it), ThreadItem.Subject it, Date it)))
     (GroupEmailsBySubject insertion_sort parse_utc lower_ascii
        [message ''m1'' ''Re: Hello'' ''2024-01-03T00:00:00Z'',
         message ''m2'' ''Hello'' ''not a date'',
         message ''m3'' ''Hello'' ''2024-01-01T00:00:00Z''])
     = Some [([''m2'', ''m3'', ''m1''], ''Re: Hello'', 63839836800)]"
    by code_simp
  from GroupEmailsBySubject_sorted_newest [OF insertion_sort_contract, of parse_utc lower_ascii
        "[message ''m1'' ''Re: Hello'' ''2024-01-03T00:00:00Z'',
         message ''m2'' ''Hello'' ''not a date'',
         message ''m3'' ''Hello'' ''2024-01-01T00:00:00Z'']"]
  have "\<exists>items. GroupEmailsBySubject insertion_sort parse_utc lower_ascii
        [message ''m1'' ''Re: Hello'' ''2024-01-03T00:00:00Z'',
         message ''m2'' ''Hello'' ''not a date'',
         message ''m3'' ''Hello'' ''2024-01-01T00:00:00Z''] = Some items \<and>
      list_all (\<lambda>it.
         sorted (map (\<lambda>e. parse_drop_err parse_utc (ReceivedAt e)) (Emails it)) \<and>
         ThreadItem.Subject it = Email.Subject (last (Emails it)) \<and>
         ThreadItem.From it = display_from (last (Emails it)) \<and>
         Date it = parse_drop_err parse_utc (ReceivedAt (last (Emails it))) \<and>
         ThreadItem.Preview it = Email.Preview (last (Emails it))) items"
    by (auto simp: list_all_iff)
  with run insertion_sort_contract show ?thesis by blast
qed

text \<open>
  Claim C3 as stated fails: the zero \<^verbatim>\<open>Time\<close> is not the lowest timestamp. A
  timestamp in the year 0000 parses to an earlier instant, and the member that fails to
  parse comes after it, last.
\<close>

theorem unparseable_member_not_first_counterexample:
  "parse_utc ''not a date'' = None \<and>
   parse_utc ''0000-06-15T12:00:00Z'' = Some (- 17236800) \<and>
   map_option (map (\<lambda>it. map ID (Emails it)))
     (GroupEmailsBySubject insertion_sort parse_utc lower_ascii
        [message ''bad'' ''Hello'' ''not a date'',
         message ''old'' ''Hello'' ''0000-06-15T12:00:00Z''])
     = Some [[''old'', ''bad'']]"
  by code_simp

end
